theory Spec2Isabelle
  imports Main
begin

section \<open>Python string primitives used by the orchestration code\<close>

text \<open>
  Python strings are modelled as \<open>string\<close>; a \<open>char\<close> stands for a code point below 256.
  The functions below are the library operations that \<open>next_express.py\<close> applies to the
  output lines of its child processes: \<open>in\<close>, \<open>str.strip\<close>, \<open>str.split\<close>, \<open>int\<close> and
  \<open>str\<close> of an integer.
\<close>

definition in_range :: "nat \<Rightarrow> nat \<Rightarrow> char \<Rightarrow> bool" where
  "in_range lo hi c = (lo \<le> of_char c \<and> (of_char c :: nat) \<le> hi)"

fun starts_with :: "string \<Rightarrow> string \<Rightarrow> bool" where
  "starts_with [] s = True"
| "starts_with (p # ps) [] = False"
| "starts_with (p # ps) (c # cs) = (p = c \<and> starts_with ps cs)"

text \<open>\<open>py_in sub s\<close> is Python's \<open>sub in s\<close> on strings: \<open>sub\<close> occurs in \<open>s\<close> as a
  contiguous substring.\<close>

fun py_in :: "string \<Rightarrow> string \<Rightarrow> bool" where
  "py_in sub [] = (sub = [])"
| "py_in sub (c # cs) = (starts_with sub (c # cs) \<or> py_in sub cs)"

text \<open>\<open>str.strip()\<close> removes leading and trailing whitespace; below 256 the characters
  with \<open>str.isspace\<close> are 9..13, 28..31, 32, 133 and 160.\<close>

definition is_space :: "char \<Rightarrow> bool" where
  "is_space c = (in_range 9 13 c \<or> in_range 28 32 c \<or> in_range 133 133 c \<or> in_range 160 160 c)"

definition py_strip :: "string \<Rightarrow> string" where
  "py_strip s = rev (dropWhile is_space (rev (dropWhile is_space s)))"

text \<open>\<open>s.split(sep)\<close> for a non-empty separator: the pieces between the non-overlapping
  occurrences of \<open>sep\<close>, found left to right. (Python raises \<open>ValueError\<close> for an empty
  separator; the program only ever splits on \<open>localhost:\<close>, and the model returns no piece
  there.)\<close>

fun split_aux :: "string \<Rightarrow> string \<Rightarrow> string \<Rightarrow> string list" where
  "split_aux sep acc [] = [rev acc]"
| "split_aux [] acc (c # cs) = []"
| "split_aux (p # ps) acc (c # cs) =
     (if starts_with (p # ps) (c # cs)
      then rev acc # split_aux (p # ps) [] (drop (length ps) cs)
      else split_aux (p # ps) (c # acc) cs)"

definition py_split :: "string \<Rightarrow> string \<Rightarrow> string list" where
  "py_split s sep = split_aux sep [] s"

text \<open>\<open>int(s)\<close> on a string, base 10: optional surrounding whitespace, an optional sign,
  then decimal digits, where single underscores may stand between digits. Anything else
  raises \<open>ValueError\<close>, modelled as \<open>None\<close>. So does a well-formed run of more than
  \<open>max_str_digits\<close> digits (4300, the interpreter's default limit): the conversion scans
  the digits and underscores after the sign, and refuses the run when it is well formed
  and holds more digits than the limit.\<close>

definition is_digit :: "char \<Rightarrow> bool" where
  "is_digit c = in_range 48 57 c"

definition digit_val :: "char \<Rightarrow> nat" where
  "digit_val c = of_char c - 48"

fun digits_val :: "nat \<Rightarrow> string \<Rightarrow> nat option" where
  "digits_val acc [] = Some acc"
| "digits_val acc [c] = (if is_digit c then Some (acc * 10 + digit_val c) else None)"
| "digits_val acc (c # d # ds) =
     (if is_digit c then digits_val (acc * 10 + digit_val c) (d # ds)
      else if c = CHR ''_'' \<and> is_digit d then digits_val (acc * 10 + digit_val d) ds
      else None)"

definition max_str_digits :: nat where
  "max_str_digits = 4300"

definition scan_run :: "string \<Rightarrow> string" where
  "scan_run s = takeWhile (\<lambda>c. is_digit c \<or> c = CHR ''_'') s"

definition over_limit :: "string \<Rightarrow> bool" where
  "over_limit s =
     (let r = scan_run s in
      r \<noteq> [] \<and> hd r \<noteq> CHR ''_'' \<and> last r \<noteq> CHR ''_'' \<and> \<not> py_in ''__'' r
      \<and> max_str_digits < length (filter is_digit r))"

definition py_int_digits :: "string \<Rightarrow> nat option" where
  "py_int_digits s =
     (if over_limit s then None
      else case s of [] \<Rightarrow> None
           | c # cs \<Rightarrow> if is_digit c then digits_val (digit_val c) cs else None)"

definition is_int_space :: "char \<Rightarrow> bool" where
  "is_int_space c = (in_range 9 13 c \<or> in_range 32 32 c \<or> in_range 133 133 c \<or> in_range 160 160 c)"

definition py_int :: "string \<Rightarrow> int option" where
  "py_int s =
     (case rev (dropWhile is_int_space (rev (dropWhile is_int_space s))) of
        [] \<Rightarrow> None
      | c # cs \<Rightarrow>
          if c = CHR ''-'' then map_option (\<lambda>n. - int n) (py_int_digits cs)
          else if c = CHR ''+'' then map_option int (py_int_digits cs)
          else map_option int (py_int_digits (c # cs)))"

text \<open>The part of a string that \<open>int\<close> reads as digits: what follows the surrounding
  whitespace and the sign.\<close>

definition int_body :: "string \<Rightarrow> string" where
  "int_body s =
     (case rev (dropWhile is_int_space (rev (dropWhile is_int_space s))) of
        [] \<Rightarrow> []
      | c # cs \<Rightarrow> if c = CHR ''-'' \<or> c = CHR ''+'' then cs else c # cs)"

text \<open>\<open>str(n)\<close> of an integer, as an f-string renders it.\<close>

definition digit_char :: "nat \<Rightarrow> char" where
  "digit_char d = ''0123456789'' ! d"

fun str_nat :: "nat \<Rightarrow> string" where
  "str_nat n = (if n < 10 then [digit_char n] else str_nat (n div 10) @ [digit_char (n mod 10)])"

declare str_nat.simps [simp del]

definition str_int :: "int \<Rightarrow> string" where
  "str_int i = (if i < 0 then CHR ''-'' # str_nat (nat (- i)) else str_nat (nat i))"

section \<open>ANSI escape sequences\<close>

text \<open>
  The pattern compiled in \<open>run_command_with_input\<close> and in \<open>remove_ansi_escape_sequences\<close>:
  ESC followed by one byte of \<open>[@-Z\\-_]\<close>, or by \<open>[\<close>, parameter bytes \<open>[0-?]*\<close>, intermediate
  bytes \<open>[ -/]*\<close> and one final byte \<open>[@-~]\<close>. The three classes of the second alternative
  are disjoint, so the greedy stars never give anything back. \<open>ansi_match s\<close> is the text
  after a match at the start of \<open>s\<close>.
\<close>

definition ESC :: char where
  "ESC = CHR 0x1B"

definition is_fe :: "char \<Rightarrow> bool" where
  "is_fe c = (in_range 0x40 0x5A c \<or> in_range 0x5C 0x5F c)"

definition is_param :: "char \<Rightarrow> bool" where
  "is_param c = in_range 0x30 0x3F c"

definition is_inter :: "char \<Rightarrow> bool" where
  "is_inter c = in_range 0x20 0x2F c"

definition is_final :: "char \<Rightarrow> bool" where
  "is_final c = in_range 0x40 0x7E c"

fun ansi_match :: "string \<Rightarrow> string option" where
  "ansi_match (e # c # cs) =
     (if e \<noteq> ESC then None
      else if is_fe c then Some cs
      else if c = CHR ''['' then
        (case dropWhile is_inter (dropWhile is_param cs) of
           [] \<Rightarrow> None
         | f # rest \<Rightarrow> if is_final f then Some rest else None)
      else None)"
| "ansi_match s = None"

text \<open>\<open>ansi_escape.sub('', text)\<close>: every match, found left to right, is removed.\<close>

function remove_ansi_escape_sequences :: "string \<Rightarrow> string" where
  "remove_ansi_escape_sequences [] = []"
| "remove_ansi_escape_sequences (c # cs) =
     (case ansi_match (c # cs) of
        Some rest \<Rightarrow> remove_ansi_escape_sequences rest
      | None \<Rightarrow> c # remove_ansi_escape_sequences cs)"
  by pat_completeness auto
termination
proof (relation "measure length")
  show "wf (measure length)" by simp
next
  fix c :: char and cs rest :: string
  assume m: "ansi_match (c # cs) = Some rest"
  have dw: "\<And>P Q (xs :: string) y ys. dropWhile P (dropWhile Q xs) = y # ys \<Longrightarrow> length ys < length xs"
  proof -
    fix P Q and xs :: string and y ys
    assume a: "dropWhile P (dropWhile Q xs) = y # ys"
    have "length (dropWhile P (dropWhile Q xs)) \<le> length xs"
      using length_dropWhile_le [of P "dropWhile Q xs"] length_dropWhile_le [of Q xs] by linarith
    with a show "length ys < length xs" by simp
  qed
  from m have "length rest < length (c # cs)"
    by (cases cs) (auto split: if_splits list.splits dest: dw)
  then show "(rest, c # cs) \<in> measure length" by simp
next
  fix c :: char and cs :: string
  show "(cs, c # cs) \<in> measure length" by simp
qed


text \<open>\<open>str.lower()\<close> and \<open>sep.join(xs)\<close>.\<close>

definition lower_char :: "char \<Rightarrow> char" where
  "lower_char c =
     (if in_range 0x41 0x5A c \<or> (in_range 0xC0 0xDE c \<and> \<not> in_range 0xD7 0xD7 c)
      then char_of (of_char c + (32 :: nat)) else c)"

definition py_lower :: "string \<Rightarrow> string" where
  "py_lower s = map lower_char s"

fun py_join :: "string \<Rightarrow> string list \<Rightarrow> string" where
  "py_join sep [] = []"
| "py_join sep [x] = x"
| "py_join sep (x # y # ys) = x @ sep @ py_join sep (y # ys)"

section \<open>Events, child processes and exceptions\<close>

text \<open>
  Everything the worker thread does to the outside is an event, in the order it happens:
  the three Qt signals (\<open>log\<close>, \<open>progress\<close>, \<open>finished\<close>), the start of a child process
  (\<open>subprocess.Popen\<close> or \<open>subprocess.run\<close>: argument vector, working directory, environment
  overlay), the writes to a child's standard input (\<open>StdinWrite\<close> and \<open>StdinFlush\<close> stand for
  a \<open>stdin.write\<close> and a \<open>stdin.flush\<close> that returned), \<open>time.sleep\<close> and
  \<open>webbrowser.open\<close>. \<open>Exited\<close> marks the moment a reading loop leaves through its
  \<open>break\<close>: the read returned the empty string and \<open>poll()\<close> reported that the child has
  exited. \<open>log_message\<close> prefixes the wall-clock time to the text it emits; the prefix is
  left out.
\<close>

datatype event =
    Log string
  | Progress string
  | Finished bool string
  | Spawn "string list" "string option" "(string \<times> string) list option"
  | Exited
  | StdinWrite string
  | StdinFlush
  | Sleep nat
  | OpenBrowser string

text \<open>
  What a child process does, as the program observes it.
  \<^item> \<open>reads\<close> are the results of the successive \<open>stdout.readline()\<close> calls that return, in
    order (an empty string is a read at end of file while the child is still running).
  \<^item> \<open>ending\<close> says what becomes of the read after them. \<open>Ends\<close>: the loop ends; for the
    runners the child has closed its stdout and exited, for the development server the 30
    seconds are over. \<open>Stalls\<close>: the read never returns; the child neither writes to
    stdout nor closes it, because it is blocked on the stderr pipe, which the program
    does not read before stdout has ended, or because it just keeps running. (For the
    runners it also stands for a child that has closed its stdout and never exits: every
    further read returns the empty string, and the loop goes on for ever.)
    \<open>Undecodable\<close>: the pipes are opened with \<open>text=True\<close>, and the bytes that come next
    do not decode, so the read raises \<open>UnicodeDecodeError\<close> with the given text.
  \<^item> \<open>rest_out\<close> and \<open>err_text\<close> are what \<open>communicate()\<close> (or \<open>stderr.read()\<close>) returns for
    stdout and stderr; when \<open>comm_error\<close> is set it raises \<open>UnicodeDecodeError\<close> with that
    text instead.
  \<^item> \<open>stdin_closes\<close>: \<open>None\<close> when the child keeps its standard input open; \<open>Some n\<close> when
    it takes \<open>n\<close> responses and has closed its standard input by the time the next one is
    flushed.
  \<^item> \<open>returncode\<close> is the exit code.
  For \<open>subprocess.run\<close>, which waits in \<open>communicate()\<close>, only \<open>ending\<close>, \<open>comm_error\<close> and
  \<open>returncode\<close> matter.
\<close>

datatype ending = Ends | Stalls | Undecodable string

record proc =
  reads :: "string list"
  ending :: ending
  rest_out :: string
  err_text :: string
  comm_error :: "string option"
  stdin_closes :: "nat option"
  returncode :: int

datatype spawned = SpawnError string | Child proc

text \<open>
  The environment of a run: \<open>spawn\<close> says what starting a given argument vector leads to
  (the operating system's error text, or the child's behaviour; no two commands of a run
  have the same argument vector, so one function covers a run); \<open>path_join a b\<close> is
  \<open>str(Path(a) / b)\<close>; \<open>repr_str\<close> is Python's \<open>repr\<close> on strings, which appears in the
  message of a \<open>ValueError\<close>.
\<close>

record world =
  spawn :: "string list \<Rightarrow> spawned"
  path_join :: "string \<Rightarrow> string \<Rightarrow> string"
  repr_str :: "string \<Rightarrow> string"

text \<open>Exceptions carry the text that \<open>str(e)\<close> gives. Every handler in the program is
  \<open>except Exception\<close>, which catches all of them.\<close>

datatype exn =
    Exception string
  | OSError string
  | AttributeError string
  | IndexError string
  | ValueError string
  | UnicodeDecodeError string
  | BrokenPipeError string

fun str_exn :: "exn \<Rightarrow> string" where
  "str_exn (Exception m) = m"
| "str_exn (OSError m) = m"
| "str_exn (AttributeError m) = m"
| "str_exn (IndexError m) = m"
| "str_exn (ValueError m) = m"
| "str_exn (UnicodeDecodeError m) = m"
| "str_exn (BrokenPipeError m) = m"

text \<open>A computation yields the events it emitted and one of three things: its result,
  the exception it raised, or nothing at all, when it blocks forever in a read. No
  handler catches the last.\<close>

datatype halt = Raised exn | Blocked

type_synonym ('e, 'a) outcome = "'e list \<times> (halt + 'a)"

definition ret :: "'a \<Rightarrow> ('e, 'a) outcome" where
  "ret v = ([], Inr v)"

definition raise :: "exn \<Rightarrow> ('e, 'a) outcome" where
  "raise e = ([], Inl (Raised e))"

definition block :: "('e, 'a) outcome" where
  "block = ([], Inl Blocked)"

definition emit :: "'e \<Rightarrow> ('e, unit) outcome" where
  "emit e = ([e], Inr ())"

definition bind :: "('e, 'a) outcome \<Rightarrow> ('a \<Rightarrow> ('e, 'b) outcome) \<Rightarrow> ('e, 'b) outcome" where
  "bind a f =
     (case snd a of
        Inl e \<Rightarrow> (fst a, Inl e)
      | Inr v \<Rightarrow> (fst a @ fst (f v), snd (f v)))"

definition log_message :: "string \<Rightarrow> (event, unit) outcome" where
  "log_message message = emit (Log message)"

definition popen ::
  "world \<Rightarrow> string list \<Rightarrow> string option \<Rightarrow> (string \<times> string) list option \<Rightarrow> (event, proc) outcome" where
  "popen w command cwd env =
     ([Spawn command cwd env],
      case spawn w command of SpawnError m \<Rightarrow> Inl (Raised (OSError m)) | Child p \<Rightarrow> Inr p)"

text \<open>How a reading loop is left once the reads that return are used up, and
  \<open>communicate()\<close>, which returns the rest of stdout and the whole of stderr.\<close>

definition loop_end :: "proc \<Rightarrow> (event, unit) outcome" where
  "loop_end p =
     (case ending p of
        Ends \<Rightarrow> emit Exited
      | Stalls \<Rightarrow> block
      | Undecodable m \<Rightarrow> raise (UnicodeDecodeError m))"

definition communicate :: "proc \<Rightarrow> (event, string \<times> string) outcome" where
  "communicate p =
     (case comm_error p of
        Some m \<Rightarrow> raise (UnicodeDecodeError m)
      | None \<Rightarrow> ret (rest_out p, err_text p))"


section \<open>Configuration\<close>

text \<open>The dict that \<open>create_project\<close> builds from the form and hands to the worker thread.\<close>

record config =
  project_name :: string
  project_path :: string
  package_manager :: string
  use_typescript :: bool
  use_tailwind :: bool
  use_eslint :: bool
  use_src_dir :: bool
  use_app_router :: bool
  use_turbo :: bool
  custom_import_alias :: bool
  import_alias :: string
  use_redux :: bool
  use_axios :: bool
  use_router :: bool
  use_auth :: bool
  use_prisma :: bool
  use_forms :: bool
  use_query :: bool
  init_git :: bool
  build_project :: bool
  additional_deps :: bool
  open_vscode :: bool
  start_dev :: bool
  open_browser :: bool
  ui_style :: string
  ui_color :: string
  use_css_vars :: bool
  react_compat :: string

section \<open>Command Runner: \<open>run_command\<close>\<close>

text \<open>The reading loop: every read that is not the empty string is logged, stripped.\<close>

fun stream_output :: "string list \<Rightarrow> event list" where
  "stream_output [] = []"
| "stream_output (output # rest) =
     (if output \<noteq> [] then Log (py_strip output) # stream_output rest
      else stream_output rest)"

definition log_if_any :: "string \<Rightarrow> (event, unit) outcome" where
  "log_if_any s = (if s \<noteq> [] then log_message s else ret ())"

definition check_returncode :: "string \<Rightarrow> proc \<Rightarrow> string \<Rightarrow> (event, int) outcome" where
  "check_returncode description p stderr =
     (if returncode p \<noteq> 0
      then raise (Exception (description @ '' failed: '' @ stderr))
      else ret (returncode p))"

text \<open>The way out of the reading loop and the code after it, which is the same text in
  \<open>run_command\<close> and in \<open>run_command_with_input\<close>: \<open>communicate()\<close>, the two conditional log
  calls, and the test of the exit code.\<close>

definition after_loop :: "string \<Rightarrow> proc \<Rightarrow> (event, int) outcome" where
  "after_loop description p =
     bind (loop_end p) (\<lambda>_.
     bind (communicate p) (\<lambda>(stdout, stderr).
     bind (log_if_any stdout) (\<lambda>_.
     bind (log_if_any stderr) (\<lambda>_.
     check_returncode description p stderr))))"

definition run_command ::
  "world \<Rightarrow> string list \<Rightarrow> string option \<Rightarrow> string \<Rightarrow> (string \<times> string) list option
     \<Rightarrow> (event, int) outcome" where
  "run_command w command cwd description env =
     bind (log_message (''Running: '' @ description)) (\<lambda>_.
     bind (popen w command cwd env) (\<lambda>p.
     bind (stream_output (reads p), Inr ()) (\<lambda>_.
     after_loop description p)))"

section \<open>Interactive Responder: \<open>run_command_with_input\<close>\<close>

text \<open>
  The prompt table is a Python dict; \<open>responses.items()\<close> iterates it in insertion order, so
  it is a list of pairs here. \<open>respond\<close> is the \<open>for \<dots> break\<close> loop over the table for one
  cleaned line; it returns whether a prompt matched. Its first argument says whether the
  child still has its standard input open: if not, \<open>stdin.write\<close> still fills the buffer
  of the text layer, and \<open>stdin.flush\<close> raises \<open>BrokenPipeError\<close>. \<open>handle_line\<close> is the body
  of the reading loop for one read; it takes the accumulation buffer and returns the new
  one, and whether a prompt matched. \<open>interact\<close> is the loop; it counts the responses sent
  and returns the buffer as the loop leaves it.
\<close>

fun respond :: "bool \<Rightarrow> (string \<times> string) list \<Rightarrow> string \<Rightarrow> (event, bool) outcome" where
  "respond still_open [] clean_output = ([], Inr False)"
| "respond still_open ((prompt, response) # rest) clean_output =
     (if py_in prompt clean_output then
        (if still_open
         then ([Log (''Responding to prompt: '' @ prompt), StdinWrite response, StdinFlush],
               Inr True)
         else ([Log (''Responding to prompt: '' @ prompt), StdinWrite response],
               Inl (Raised (BrokenPipeError ''[Errno 32] Broken pipe''))))
      else respond still_open rest clean_output)"

definition handle_line ::
  "bool \<Rightarrow> (string \<times> string) list \<Rightarrow> string \<Rightarrow> string \<Rightarrow> (event, string \<times> bool) outcome" where
  "handle_line still_open responses buffer output =
     (if output \<noteq> [] then
        (let clean_output = remove_ansi_escape_sequences (py_strip output);
             buffer1 = buffer @ clean_output @ [CHR 0x0A]
         in bind (log_message clean_output) (\<lambda>_.
            bind (respond still_open responses clean_output) (\<lambda>matched.
            ret (if matched then [] else buffer1, matched))))
      else ret (buffer, False))"

definition still_open :: "proc \<Rightarrow> nat \<Rightarrow> bool" where
  "still_open p answered =
     (case stdin_closes p of None \<Rightarrow> True | Some n \<Rightarrow> answered < n)"

fun interact ::
  "proc \<Rightarrow> (string \<times> string) list \<Rightarrow> nat \<Rightarrow> string \<Rightarrow> string list \<Rightarrow> (event, string) outcome" where
  "interact p responses answered buffer [] = ([], Inr buffer)"
| "interact p responses answered buffer (output # rest) =
     (case snd (handle_line (still_open p answered) responses buffer output) of
        Inl h \<Rightarrow> (fst (handle_line (still_open p answered) responses buffer output), Inl h)
      | Inr (buffer', matched) \<Rightarrow>
          (fst (handle_line (still_open p answered) responses buffer output)
             @ fst (interact p responses (if matched then Suc answered else answered) buffer' rest),
           snd (interact p responses (if matched then Suc answered else answered) buffer' rest)))"

definition run_command_with_input ::
  "world \<Rightarrow> string list \<Rightarrow> string option \<Rightarrow> string \<Rightarrow> (string \<times> string) list
     \<Rightarrow> (string \<times> string) list option \<Rightarrow> (event, int) outcome" where
  "run_command_with_input w command cwd description responses env =
     bind (log_message (''Running: '' @ description)) (\<lambda>_.
     bind (popen w command cwd env) (\<lambda>p.
     bind (interact p responses 0 [] (reads p)) (\<lambda>_.
     after_loop description p)))"

section \<open>Dev Server Launcher: \<open>start_dev_server\<close>\<close>

definition is_ready_line :: "string \<Rightarrow> bool" where
  "is_ready_line output =
     (py_in ''ready - started server on'' output \<or> py_in ''Local:'' output)"

text \<open>The text of the \<open>ValueError\<close> that \<open>int\<close> raises on a string it rejects.\<close>

definition int_error :: "world \<Rightarrow> string \<Rightarrow> string" where
  "int_error w s =
     (if over_limit (int_body s)
      then ''Exceeds the limit ('' @ str_nat max_str_digits
           @ '' digits) for integer string conversion: value has ''
           @ str_nat (length (filter is_digit (scan_run (int_body s))))
           @ '' digits; use sys.set_int_max_str_digits() to increase the limit''
      else ''invalid literal for int() with base 10: '' @ repr_str w s)"

text \<open>\<open>int(output.split("localhost:")[1].strip())\<close>: the index raises \<open>IndexError\<close> when the
  split has a single piece, and \<open>int\<close> raises \<open>ValueError\<close> on anything but an integer.\<close>

definition parse_port :: "world \<Rightarrow> string \<Rightarrow> exn + int" where
  "parse_port w output =
     (case py_split output ''localhost:'' of
        piece0 # piece1 # pieces \<Rightarrow>
          (case py_int (py_strip piece1) of
             Some port \<Rightarrow> Inr port
           | None \<Rightarrow> Inl (ValueError (int_error w (py_strip piece1))))
      | _ \<Rightarrow> Inl (IndexError ''list index out of range''))"

text \<open>The readiness loop over the reads made by the iterations that start before the 30
  seconds are over. The time is looked at only between two reads, so a read that never
  returns blocks the loop for good. The result is the port when a ready line was parsed,
  \<open>None\<close> when the time ran out.\<close>

fun wait_ready :: "world \<Rightarrow> ending \<Rightarrow> string list \<Rightarrow> (event, int option) outcome" where
  "wait_ready w en [] =
     (case en of
        Ends \<Rightarrow> ([], Inr None)
      | Stalls \<Rightarrow> ([], Inl Blocked)
      | Undecodable m \<Rightarrow> ([], Inl (Raised (UnicodeDecodeError m))))"
| "wait_ready w en (output # rest) =
     (if output \<noteq> [] then
        (if is_ready_line output then
           (case parse_port w output of
              Inl e \<Rightarrow> ([Log (py_strip output)], Inl (Raised e))
            | Inr port \<Rightarrow> ([Log (py_strip output), Sleep 2], Inr (Some port)))
         else (Log (py_strip output) # fst (wait_ready w en rest), snd (wait_ready w en rest)))
      else wait_ready w en rest)"

definition announce_ready :: "config \<Rightarrow> int option \<Rightarrow> (event, unit) outcome" where
  "announce_ready cfg ready =
     (case ready of
        None \<Rightarrow> ret ()
      | Some port \<Rightarrow>
          bind (log_message (''Development server is ready on port '' @ str_int port @ ''!'')) (\<lambda>_.
          if open_browser cfg then
            bind (log_message (''Opening in browser at port '' @ str_int port @ ''...'')) (\<lambda>_.
            emit (OpenBrowser (''http://localhost:'' @ str_int port)))
          else ret ()))"

definition start_dev_server :: "config \<Rightarrow> world \<Rightarrow> string \<Rightarrow> (event, unit) outcome" where
  "start_dev_server cfg w project_dir =
     bind (log_message ''Starting development server...'') (\<lambda>_.
     bind (popen w [''npm'', ''run'', ''dev''] (Some project_dir) None) (\<lambda>p.
     bind (wait_ready w (ending p) (reads p)) (\<lambda>ready.
     announce_ready cfg ready)))"


section \<open>Orchestration Sequencer: \<open>run\<close>\<close>

subsection \<open>Dependency check\<close>

text \<open>\<open>subprocess.run(command, capture_output=True, text=True)\<close> reads both pipes until
  the child has closed them, decodes what it read and waits for the exit code.\<close>

definition subprocess_run :: "world \<Rightarrow> string list \<Rightarrow> (event, int) outcome" where
  "subprocess_run w command =
     bind (popen w command None None) (\<lambda>p.
     case ending p of
       Stalls \<Rightarrow> block
     | Undecodable m \<Rightarrow> raise (UnicodeDecodeError m)
     | Ends \<Rightarrow> bind (communicate p) (\<lambda>_. ret (returncode p)))"

fun check_globals :: "world \<Rightarrow> string list \<Rightarrow> (event, unit) outcome" where
  "check_globals w [] = ret ()"
| "check_globals w (pkg # pkgs) =
     bind (subprocess_run w [''npm'', ''list'', ''-g'', pkg]) (\<lambda>rc.
     if rc \<noteq> 0 then raise (Exception (''Required global package '' @ pkg @ '' not found''))
     else check_globals w pkgs)"

definition check_dependencies_body :: "world \<Rightarrow> (event, bool) outcome" where
  "check_dependencies_body w =
     bind (subprocess_run w [''node'', ''--version'']) (\<lambda>node_version.
     bind (subprocess_run w [''npm'', ''--version'']) (\<lambda>npm_version.
     bind (if node_version \<noteq> 0 \<or> npm_version \<noteq> 0
           then raise (Exception ''Node.js and npm are required but not found'')
           else ret ()) (\<lambda>_.
     bind (check_globals w [''next'', ''create-next-app'', ''typescript'']) (\<lambda>_.
     ret True))))"

definition check_dependencies :: "world \<Rightarrow> (event, bool) outcome" where
  "check_dependencies w =
     (case snd (check_dependencies_body w) of
        Inl (Raised e) \<Rightarrow>
          (fst (check_dependencies_body w) @ [Log (''Dependency check failed: '' @ str_exn e)],
           Inr False)
      | Inl Blocked \<Rightarrow> (fst (check_dependencies_body w), Inl Blocked)
      | Inr ok \<Rightarrow> (fst (check_dependencies_body w), Inr ok))"

subsection \<open>Scaffold\<close>

definition create_command :: "config \<Rightarrow> string list" where
  "create_command cfg =
     [''npx'',
      ''--yes'',
      ''create-next-app@latest'',
      project_name cfg,
      if use_typescript cfg then ''--ts'' else ''--js'',
      if use_tailwind cfg then ''--tailwind'' else ''--no-tailwind'',
      if use_eslint cfg then ''--eslint'' else ''--no-eslint'',
      if use_src_dir cfg then ''--src-dir'' else ''--no-src-dir'',
      if use_app_router cfg then ''--app'' else ''--pages'',
      if custom_import_alias cfg then ''--import-alias'' else ''--no-import-alias'',
      ''--use-npm'']
     @ (if custom_import_alias cfg then [''--import-alias'', import_alias cfg] else [])"

fun scaffold_stream :: "string list \<Rightarrow> event list" where
  "scaffold_stream [] = []"
| "scaffold_stream (output # rest) =
     (if output \<noteq> [] then
        Log (py_strip output)
        # (if py_in ''Creating'' (py_strip output) then [Progress ''Creating project structure...'']
           else if py_in ''Installing'' (py_strip output) then [Progress ''Installing dependencies...'']
           else if py_in ''Success'' (py_strip output) then [Progress ''Project structure created!'']
           else [])
        @ scaffold_stream rest
      else scaffold_stream rest)"

text \<open>\<open>process.stderr.read()\<close>: the whole of stderr, decoded.\<close>

definition stderr_read :: "proc \<Rightarrow> (event, string) outcome" where
  "stderr_read p =
     (case comm_error p of
        Some m \<Rightarrow> raise (UnicodeDecodeError m)
      | None \<Rightarrow> ret (err_text p))"

definition scaffold :: "config \<Rightarrow> world \<Rightarrow> string \<Rightarrow> (event, unit) outcome" where
  "scaffold cfg w project_dir =
     bind (emit (Progress ''Creating Next.js project structure...'')) (\<lambda>_.
     bind (log_message (''Creating project at: '' @ project_dir)) (\<lambda>_.
     bind (log_message (''Running command: '' @ py_join '' '' (create_command cfg))) (\<lambda>_.
     bind (popen w (create_command cfg) (Some (project_path cfg))
             (Some [(''CI'', ''true''), (''NEXT_TELEMETRY_DISABLED'', ''1'')])) (\<lambda>p.
     bind (scaffold_stream (reads p), Inr ()) (\<lambda>_.
     bind (loop_end p) (\<lambda>_.
     if returncode p \<noteq> 0
     then bind (stderr_read p) (\<lambda>stderr.
          raise (Exception (''Project creation failed: '' @ stderr)))
     else ret ()))))))"

subsection \<open>Feature installs\<close>

text \<open>
  \<open>run\<close> calls \<open>self.install_additional_features(project_path)\<close>. Neither
  \<open>ProjectSetupThread\<close> nor its base class \<open>QThread\<close> has an attribute of that name (the
  class defines \<open>install_project_dependencies\<close>, which nothing calls), so the attribute
  lookup raises \<open>AttributeError\<close> before any command is started.
\<close>

definition install_additional_features :: "string \<Rightarrow> (event, unit) outcome" where
  "install_additional_features project_dir =
     raise (AttributeError
       (CHR 0x27 # ''ProjectSetupThread'' @ CHR 0x27 # '' object has no attribute ''
        @ CHR 0x27 # ''install_additional_features'' @ [CHR 0x27]))"

definition any_feature :: "config \<Rightarrow> bool" where
  "any_feature cfg =
     (use_redux cfg \<or> use_axios cfg \<or> use_router cfg \<or> use_auth cfg \<or> use_prisma cfg
      \<or> use_forms cfg \<or> use_query cfg)"

subsection \<open>Component-library init: \<open>setup_shadcn_and_utilities\<close>\<close>

definition base_deps :: "string list" where
  "base_deps =
     [''@radix-ui/react-icons'', ''@radix-ui/react-slot'', ''class-variance-authority'',
      ''clsx'', ''tailwind-merge'', ''lucide-react'', ''tailwindcss-animate'']"

definition style_map :: "(string \<times> string) list" where
  "style_map =
     [(''Default'', ''default''), (''New York'', ''new-york''), (''Zinc'', ''zinc''),
      (''Slate'', ''slate''), (''Stone'', ''stone''), (''Gray'', ''gray'')]"

definition shadcn_responses :: "config \<Rightarrow> (string \<times> string) list" where
  "shadcn_responses cfg =
     [(''Which style would you like to use?'',
         (case map_of style_map (ui_style cfg) of Some st \<Rightarrow> st | None \<Rightarrow> ''default'')
         @ [CHR 0x0A]),
      (''Which color would you like to use as the base color?'',
         py_lower (ui_color cfg) @ [CHR 0x0A]),
      (''Would you like to use CSS variables for theming?'',
         (if use_css_vars cfg then ''yes'' else ''no'') @ [CHR 0x0A]),
      (''How would you like to proceed?'', react_compat cfg @ [CHR 0x0A])]"

definition setup_shadcn_body :: "config \<Rightarrow> world \<Rightarrow> string \<Rightarrow> (event, unit) outcome" where
  "setup_shadcn_body cfg w project_dir =
     bind (log_message ''Setting up shadcn/ui with selected options...'') (\<lambda>_.
     bind (run_command w ([''npm'', ''install'', ''--save-dev''] @ base_deps) (Some project_dir)
             ''Installing dependencies'' None) (\<lambda>_.
     bind (run_command_with_input w [''npx'', ''shadcn@latest'', ''init''] (Some project_dir)
             ''Initializing shadcn/ui'' (shadcn_responses cfg)
             (Some [(''NPM_CONFIG_LEGACY_PEER_DEPS'', ''true'')])) (\<lambda>_.
     log_message ''shadcn/ui has been initialized with selected settings.'')))"

definition setup_shadcn_and_utilities :: "config \<Rightarrow> world \<Rightarrow> string \<Rightarrow> (event, unit) outcome" where
  "setup_shadcn_and_utilities cfg w project_dir =
     (case snd (setup_shadcn_body cfg w project_dir) of
        Inl (Raised e) \<Rightarrow>
          (fst (setup_shadcn_body cfg w project_dir)
             @ [Log (''Error setting up shadcn/ui: '' @ str_exn e)],
           Inl (Raised e))
      | Inl Blocked \<Rightarrow> (fst (setup_shadcn_body cfg w project_dir), Inl Blocked)
      | Inr u \<Rightarrow> (fst (setup_shadcn_body cfg w project_dir), Inr u))"


subsection \<open>The pipeline\<close>

text \<open>
  The body of \<open>run\<close> is cut into the eight steps of the pipeline, in the order of the source
  text; \<open>Report\<close> stands for the final signals. Each event of a run is paired with the step
  whose code emitted it.
\<close>

datatype step =
  DepCheck | Scaffold | Features | Shadcn | GitInit | BuildStep | Editor | DevServer | Report

fun step_no :: "step \<Rightarrow> nat" where
  "step_no DepCheck = 1"
| "step_no Scaffold = 2"
| "step_no Features = 3"
| "step_no Shadcn = 4"
| "step_no GitInit = 5"
| "step_no BuildStep = 6"
| "step_no Editor = 7"
| "step_no DevServer = 8"
| "step_no Report = 9"

definition in_step :: "step \<Rightarrow> (event, 'a) outcome \<Rightarrow> (step \<times> event, 'a) outcome" where
  "in_step s a = (map (Pair s) (fst a), snd a)"

definition discard :: "(event, 'a) outcome \<Rightarrow> (event, unit) outcome" where
  "discard a = bind a (\<lambda>_. ret ())"

definition dependency_step :: "world \<Rightarrow> (event, unit) outcome" where
  "dependency_step w =
     bind (emit (Progress ''Checking dependencies...'')) (\<lambda>_.
     bind (check_dependencies w) (\<lambda>ok.
     if \<not> ok
     then raise (Exception ''Required dependencies not found. Please run setup.py first'')
     else ret ()))"

definition features_step :: "config \<Rightarrow> string \<Rightarrow> (event, unit) outcome" where
  "features_step cfg project_dir =
     (if any_feature cfg then
        bind (emit (Progress ''Installing additional features...'')) (\<lambda>_.
        install_additional_features project_dir)
      else ret ())"

definition shadcn_step :: "config \<Rightarrow> world \<Rightarrow> string \<Rightarrow> (event, unit) outcome" where
  "shadcn_step cfg w project_dir =
     bind (emit (Progress ''Setting up shadcn/ui components...'')) (\<lambda>_.
     setup_shadcn_and_utilities cfg w project_dir)"

definition git_step :: "config \<Rightarrow> world \<Rightarrow> string \<Rightarrow> (event, unit) outcome" where
  "git_step cfg w project_dir =
     (if init_git cfg then
        bind (emit (Progress ''Initializing Git repository...'')) (\<lambda>_.
        discard (run_command w [''git'', ''init''] (Some project_dir) ''Initializing Git'' None))
      else ret ())"

definition build_step :: "config \<Rightarrow> world \<Rightarrow> string \<Rightarrow> (event, unit) outcome" where
  "build_step cfg w project_dir =
     (if build_project cfg then
        bind (emit (Progress ''Building project...'')) (\<lambda>_.
        discard (run_command w [''npm'', ''run'', ''build''] (Some project_dir)
                   ''Building project'' None))
      else ret ())"

definition editor_step :: "config \<Rightarrow> world \<Rightarrow> string \<Rightarrow> (event, unit) outcome" where
  "editor_step cfg w project_dir =
     (if open_vscode cfg then
        bind (emit (Progress ''Opening in VS Code...'')) (\<lambda>_.
        discard (run_command w [''code'', ''.''] (Some project_dir) ''Opening VS Code'' None))
      else ret ())"

definition dev_server_step :: "config \<Rightarrow> world \<Rightarrow> string \<Rightarrow> (event, unit) outcome" where
  "dev_server_step cfg w project_dir =
     (if start_dev cfg then
        bind (emit (Progress ''Starting development server...'')) (\<lambda>_.
        start_dev_server cfg w project_dir)
      else ret ())"

definition run_body :: "config \<Rightarrow> world \<Rightarrow> (step \<times> event, unit) outcome" where
  "run_body cfg w =
     (let project_dir = path_join w (project_path cfg) (project_name cfg) in
      bind (in_step DepCheck (dependency_step w)) (\<lambda>_.
      bind (in_step Scaffold (scaffold cfg w project_dir)) (\<lambda>_.
      bind (in_step Features (features_step cfg project_dir)) (\<lambda>_.
      bind (in_step Shadcn (shadcn_step cfg w project_dir)) (\<lambda>_.
      bind (in_step GitInit (git_step cfg w project_dir)) (\<lambda>_.
      bind (in_step BuildStep (build_step cfg w project_dir)) (\<lambda>_.
      bind (in_step Editor (editor_step cfg w project_dir)) (\<lambda>_.
      in_step DevServer (dev_server_step cfg w project_dir)))))))))"

text \<open>The rocket of the last progress message is one code point above 255; its UTF-8
  bytes stand for it.\<close>

definition rocket :: string where
  "rocket = [CHR 0xF0, CHR 0x9F, CHR 0x9A, CHR 0x80]"

text \<open>\<open>run\<close>: the body inside \<open>try\<close>, then the success signals, or the handler of
  \<open>except Exception\<close>. A body that blocks emits nothing after the events it got to.\<close>

definition run :: "config \<Rightarrow> world \<Rightarrow> (step \<times> event) list" where
  "run cfg w =
     (case snd (run_body cfg w) of
        Inr u \<Rightarrow>
          fst (run_body cfg w)
          @ map (Pair Report)
              [Progress (''Project creation completed! '' @ rocket),
               Finished True ''Project created successfully!'']
      | Inl (Raised e) \<Rightarrow>
          fst (run_body cfg w)
          @ map (Pair Report)
              [Log (''Error: '' @ str_exn e),
               Progress ''Error occurred during project creation'',
               Finished False (''Error: '' @ str_exn e)]
      | Inl Blocked \<Rightarrow> fst (run_body cfg w))"


section \<open>Observations on traces\<close>

text \<open>The commands started in a list of events, and the texts written to a child's
  standard input.\<close>

fun spawns :: "event list \<Rightarrow> string list list" where
  "spawns [] = []"
| "spawns (Spawn command cwd env # es) = command # spawns es"
| "spawns (e # es) = spawns es"

fun stdin_writes :: "event list \<Rightarrow> string list" where
  "stdin_writes [] = []"
| "stdin_writes (StdinWrite s # es) = s # stdin_writes es"
| "stdin_writes (e # es) = stdin_writes es"

fun commands :: "(step \<times> event) list \<Rightarrow> (step \<times> string list) list" where
  "commands [] = []"
| "commands ((s, Spawn command cwd env) # es) = (s, command) # commands es"
| "commands (e # es) = commands es"

fun results :: "(step \<times> event) list \<Rightarrow> (bool \<times> string) list" where
  "results [] = []"
| "results ((s, Finished ok message) # es) = (ok, message) # results es"
| "results (e # es) = results es"

text \<open>The \<open>finished\<close> signals in a list of events.\<close>

fun finishes :: "event list \<Rightarrow> (bool \<times> string) list" where
  "finishes [] = []"
| "finishes (Finished ok message # es) = (ok, message) # finishes es"
| "finishes (e # es) = finishes es"

text \<open>A string is free of escape sequences when the pattern matches at none of its
  positions.\<close>

fun no_escape :: "string \<Rightarrow> bool" where
  "no_escape [] = True"
| "no_escape (c # cs) = (ansi_match (c # cs) = None \<and> no_escape cs)"

text \<open>The commands each step of the source can start, and the description under which
  the source runs each command of a step.\<close>

fun step_commands :: "config \<Rightarrow> step \<Rightarrow> string list list" where
  "step_commands cfg DepCheck =
     [[''node'', ''--version''], [''npm'', ''--version''], [''npm'', ''list'', ''-g'', ''next''],
      [''npm'', ''list'', ''-g'', ''create-next-app''], [''npm'', ''list'', ''-g'', ''typescript'']]"
| "step_commands cfg Scaffold = [create_command cfg]"
| "step_commands cfg Features = []"
| "step_commands cfg Shadcn =
     [[''npm'', ''install'', ''--save-dev''] @ base_deps, [''npx'', ''shadcn@latest'', ''init'']]"
| "step_commands cfg GitInit = [[''git'', ''init'']]"
| "step_commands cfg BuildStep = [[''npm'', ''run'', ''build'']]"
| "step_commands cfg Editor = [[''code'', ''.'']]"
| "step_commands cfg DevServer = [[''npm'', ''run'', ''dev'']]"
| "step_commands cfg Report = []"

fun description_of :: "step \<Rightarrow> string list \<Rightarrow> string" where
  "description_of Scaffold c = ''Project creation''"
| "description_of Shadcn c =
     (if c = [''npx'', ''shadcn@latest'', ''init''] then ''Initializing shadcn/ui''
      else ''Installing dependencies'')"
| "description_of GitInit c = ''Initializing Git''"
| "description_of BuildStep c = ''Building project''"
| "description_of Editor c = ''Opening VS Code''"
| "description_of s c = []"

text \<open>The text of the failure that a run reports when a child of a step exits with a
  non-zero code: the dependency check turns every failure into one fixed text, the other
  steps report the description of the command and what the child wrote to stderr.\<close>

definition failure_text :: "step \<Rightarrow> string list \<Rightarrow> proc \<Rightarrow> string" where
  "failure_text s c p =
     (if s = DepCheck then ''Required dependencies not found. Please run setup.py first''
      else description_of s c @ '' failed: '' @ err_text p)"

text \<open>The body of \<open>run\<close> as a list of steps run one after the other until one raises.\<close>

fun exec :: "(step \<times> (event, unit) outcome) list \<Rightarrow> (step \<times> event, unit) outcome" where
  "exec [] = ret ()"
| "exec ((s, a) # rest) = bind (in_step s a) (\<lambda>_. exec rest)"

definition plan :: "config \<Rightarrow> world \<Rightarrow> (step \<times> (event, unit) outcome) list" where
  "plan cfg w =
     (let project_dir = path_join w (project_path cfg) (project_name cfg) in
      [(DepCheck, dependency_step w),
       (Scaffold, scaffold cfg w project_dir),
       (Features, features_step cfg project_dir),
       (Shadcn, shadcn_step cfg w project_dir),
       (GitInit, git_step cfg w project_dir),
       (BuildStep, build_step cfg w project_dir),
       (Editor, editor_step cfg w project_dir),
       (DevServer, dev_server_step cfg w project_dir)])"

text \<open>Following the words of claim C3: the first entry of the prompt table, in table
  order, whose prompt is a substring of a cleaned line; the events of one read on which
  that entry is answered by a write and a flush; the accumulation buffer after the read,
  cleared on a match; and the number of reads that have a match.\<close>

definition first_match :: "(string \<times> string) list \<Rightarrow> string \<Rightarrow> (string \<times> string) option" where
  "first_match table line = find (\<lambda>entry. py_in (fst entry) line) table"

definition clean :: "string \<Rightarrow> string" where
  "clean r = remove_ansi_escape_sequences (py_strip r)"

definition line_events :: "(string \<times> string) list \<Rightarrow> string \<Rightarrow> event list" where
  "line_events table r =
     (if r = [] then []
      else Log (clean r)
           # (case first_match table (clean r) of
                None \<Rightarrow> []
              | Some entry \<Rightarrow>
                  [Log (''Responding to prompt: '' @ fst entry), StdinWrite (snd entry),
                   StdinFlush]))"

definition line_buffer :: "(string \<times> string) list \<Rightarrow> string \<Rightarrow> string \<Rightarrow> string" where
  "line_buffer table buffer r =
     (if r = [] then buffer
      else case first_match table (clean r) of
             None \<Rightarrow> buffer @ clean r @ [CHR 0x0A]
           | Some entry \<Rightarrow> [])"

definition answered :: "(string \<times> string) list \<Rightarrow> string list \<Rightarrow> nat" where
  "answered table rs =
     length (filter (\<lambda>r. r \<noteq> [] \<and> first_match table (clean r) \<noteq> None) rs)"

text \<open>The child takes every response that the reads \<open>rs\<close> call for, when \<open>a\<close> responses
  have been sent before.\<close>

definition stdin_open :: "proc \<Rightarrow> nat \<Rightarrow> (string \<times> string) list \<Rightarrow> string list \<Rightarrow> bool" where
  "stdin_open p a table rs =
     (case stdin_closes p of None \<Rightarrow> True | Some n \<Rightarrow> a + answered table rs \<le> n)"

text \<open>A command runs to its end and exits with code 0 in a world: it can be started,
  its output ends and decodes, and the exit code is 0.\<close>

definition exits_zero :: "world \<Rightarrow> string list \<Rightarrow> bool" where
  "exits_zero w command =
     (case spawn w command of
        SpawnError m \<Rightarrow> False
      | Child p \<Rightarrow> ending p = Ends \<and> comm_error p = None \<and> returncode p = 0)"

text \<open>A command never lets go of its output in a world: a read of it never returns.\<close>

definition stalls :: "world \<Rightarrow> string list \<Rightarrow> bool" where
  "stalls w command =
     (case spawn w command of SpawnError m \<Rightarrow> False | Child p \<Rightarrow> ending p = Stalls)"

text \<open>The child of a command keeps its standard input open for all the answers that a
  prompt table gives to its output.\<close>

definition takes_answers :: "world \<Rightarrow> string list \<Rightarrow> (string \<times> string) list \<Rightarrow> bool" where
  "takes_answers w command table =
     (case spawn w command of
        SpawnError m \<Rightarrow> False
      | Child p \<Rightarrow> stdin_open p 0 table (reads p))"

section \<open>Sample inputs\<close>

definition quiet :: proc where
  "quiet =
     \<lparr>reads = [], ending = Ends, rest_out = [], err_text = [], comm_error = None,
      stdin_closes = None, returncode = 0\<rparr>"

definition all_quiet :: world where
  "all_quiet =
     \<lparr>spawn = (\<lambda>command. Child quiet),
      path_join = (\<lambda>a b. a @ ''/'' @ b),
      repr_str = (\<lambda>s. CHR 0x27 # s @ [CHR 0x27])\<rparr>"

definition sample_cfg :: config where
  "sample_cfg =
     \<lparr>project_name = ''app'', project_path = ''/tmp'', package_manager = ''npm'',
      use_typescript = True, use_tailwind = True, use_eslint = True, use_src_dir = True,
      use_app_router = True, use_turbo = False, custom_import_alias = True,
      import_alias = ''@/*'', use_redux = False, use_axios = False, use_router = False,
      use_auth = False, use_prisma = False, use_forms = False, use_query = False,
      init_git = False, build_project = False, additional_deps = True, open_vscode = False,
      start_dev = False, open_browser = True, ui_style = ''Default'', ui_color = ''Neutral'',
      use_css_vars = True, react_compat = ''Use --force''\<rparr>"

definition failing :: proc where
  "failing =
     \<lparr>reads = [''out1'' @ [CHR 0x0A]], ending = Ends, rest_out = [],
      err_text = ''warn1'' @ [CHR 0x0A] @ ''warn2'' @ [CHR 0x0A], comm_error = None,
      stdin_closes = None, returncode = 1\<rparr>"

definition one_fails :: "string list \<Rightarrow> world" where
  "one_fails bad =
     all_quiet\<lparr>spawn := (\<lambda>command. if command = bad then Child failing else Child quiet)\<rparr>"

definition noisy :: proc where
  "noisy =
     \<lparr>reads = [''out1'' @ [CHR 0x0A]], ending = Ends, rest_out = [],
      err_text = ''warn1'' @ [CHR 0x0A] @ ''warn2'' @ [CHR 0x0A], comm_error = None,
      stdin_closes = None, returncode = 0\<rparr>"

definition noisy_world :: world where
  "noisy_world = all_quiet\<lparr>spawn := (\<lambda>command. Child noisy)\<rparr>"

definition serving :: "string \<Rightarrow> world" where
  "serving line =
     all_quiet\<lparr>spawn := (\<lambda>command. Child (quiet\<lparr>reads := [''starting'' @ [CHR 0x0A], [], line]\<rparr>))\<rparr>"

definition garbled :: proc where
  "garbled =
     failing\<lparr>ending := Undecodable (CHR 0x27 # ''utf-8'' @ CHR 0x27
        # '' codec can'' @ CHR 0x27 # ''t decode byte 0xff in position 0: invalid start byte'')\<rparr>"

definition stalled :: proc where
  "stalled = noisy\<lparr>ending := Stalls\<rparr>"

definition only :: "proc \<Rightarrow> world" where
  "only p = all_quiet\<lparr>spawn := (\<lambda>command. Child p)\<rparr>"

definition prompting :: proc where
  "prompting =
     quiet\<lparr>reads := [''setup'' @ [CHR 0x0A], [], ESC # ''[1m color? '' @ [CHR 0x0A],
                      ''done'' @ [CHR 0x0A]]\<rparr>"

definition sample_table :: "(string \<times> string) list" where
  "sample_table =
     [(''style?'', ''default'' @ [CHR 0x0A]), (''color?'', ''zinc'' @ [CHR 0x0A]),
      (''lor'', ''x'' @ [CHR 0x0A])]"

text \<open>Following the words of claim C9: the text after the first occurrence of a
  separator in a line, if there is one.\<close>

fun text_after_first :: "string \<Rightarrow> string \<Rightarrow> string option" where
  "text_after_first sep [] = None"
| "text_after_first sep (c # cs) =
     (if starts_with sep (c # cs) then Some (drop (length sep) (c # cs))
      else text_after_first sep cs)"

definition git_cfg :: config where
  "git_cfg = sample_cfg\<lparr>init_git := True\<rparr>"

definition dev_cfg :: config where
  "dev_cfg = sample_cfg\<lparr>start_dev := True\<rparr>"

section \<open>Basic facts\<close>

lemma fst_bind: "fst (bind a f) = fst a @ (case snd a of Inl e \<Rightarrow> [] | Inr v \<Rightarrow> fst (f v))"
  by (simp add: bind_def split: sum.splits)

lemma snd_bind: "snd (bind a f) = (case snd a of Inl e \<Rightarrow> Inl e | Inr v \<Rightarrow> snd (f v))"
  by (simp add: bind_def split: sum.splits)

lemma snd_after_loop:
  "snd (after_loop description p) =
     (case ending p of
        Ends \<Rightarrow>
          (case comm_error p of
             Some m \<Rightarrow> Inl (Raised (UnicodeDecodeError m))
           | None \<Rightarrow>
               if returncode p \<noteq> 0
               then Inl (Raised (Exception (description @ '' failed: '' @ err_text p)))
               else Inr 0)
      | Stalls \<Rightarrow> Inl Blocked
      | Undecodable m \<Rightarrow> Inl (Raised (UnicodeDecodeError m)))"
  by (simp add: after_loop_def snd_bind loop_end_def communicate_def log_if_any_def
        log_message_def emit_def ret_def raise_def block_def check_returncode_def
        split: ending.splits option.splits)

lemma fst_after_loop:
  "fst (after_loop description p) =
     (case ending p of
        Ends \<Rightarrow>
          Exited
          # (case comm_error p of
               Some m \<Rightarrow> []
             | None \<Rightarrow>
                 (if rest_out p \<noteq> [] then [Log (rest_out p)] else [])
                 @ (if err_text p \<noteq> [] then [Log (err_text p)] else []))
      | Stalls \<Rightarrow> []
      | Undecodable m \<Rightarrow> [])"
  by (simp add: after_loop_def fst_bind snd_bind loop_end_def communicate_def log_if_any_def
        log_message_def emit_def ret_def raise_def block_def check_returncode_def
        split: ending.splits option.splits)

lemma snd_run_command:
  "snd (run_command w command cwd description env) =
     (case spawn w command of
        SpawnError m \<Rightarrow> Inl (Raised (OSError m))
      | Child p \<Rightarrow> snd (after_loop description p))"
  by (simp add: run_command_def snd_bind log_message_def emit_def popen_def
        split: spawned.splits)

lemma fst_run_command:
  "fst (run_command w command cwd description env) =
     [Log (''Running: '' @ description), Spawn command cwd env]
     @ (case spawn w command of
          SpawnError m \<Rightarrow> []
        | Child p \<Rightarrow> stream_output (reads p) @ fst (after_loop description p))"
  by (simp add: run_command_def fst_bind snd_bind log_message_def emit_def popen_def
        split: spawned.splits)

lemma stdin_writes_append: "stdin_writes (xs @ ys) = stdin_writes xs @ stdin_writes ys"
  by (induction xs rule: stdin_writes.induct) auto

lemma stream_output_eq:
  "stream_output rs = map (\<lambda>r. Log (py_strip r)) (filter (\<lambda>r. r \<noteq> []) rs)"
  by (induction rs) auto

lemma respond_first_match:
  "respond opn table c =
     (case first_match table c of
        None \<Rightarrow> ([], Inr False)
      | Some entry \<Rightarrow>
          if opn
          then ([Log (''Responding to prompt: '' @ fst entry), StdinWrite (snd entry),
                 StdinFlush], Inr True)
          else ([Log (''Responding to prompt: '' @ fst entry), StdinWrite (snd entry)],
                Inl (Raised (BrokenPipeError ''[Errno 32] Broken pipe''))))"
  by (induction table) (auto simp: first_match_def)

lemma handle_line_open:
  "handle_line True table buffer r =
     (line_events table r,
      Inr (line_buffer table buffer r, r \<noteq> [] \<and> first_match table (clean r) \<noteq> None))"
  by (auto simp: handle_line_def Let_def line_events_def line_buffer_def clean_def bind_def
        log_message_def emit_def ret_def respond_first_match split: option.splits)

lemma handle_line_unmatched:
  "r = [] \<or> first_match table (clean r) = None \<Longrightarrow>
   handle_line opn table buffer r =
     (line_events table r, Inr (line_buffer table buffer r, False))"
  by (auto simp: handle_line_def Let_def line_events_def line_buffer_def clean_def bind_def
        log_message_def emit_def ret_def respond_first_match split: option.splits)

lemma handle_line_closed:
  "r \<noteq> [] \<Longrightarrow> first_match table (clean r) = Some entry \<Longrightarrow>
   handle_line False table buffer r =
     ([Log (clean r), Log (''Responding to prompt: '' @ fst entry), StdinWrite (snd entry)],
      Inl (Raised (BrokenPipeError ''[Errno 32] Broken pipe'')))"
  by (auto simp: handle_line_def Let_def clean_def bind_def
        log_message_def emit_def ret_def respond_first_match split: option.splits)

lemma answered_Cons:
  "answered table (r # rs) =
     (if r \<noteq> [] \<and> first_match table (clean r) \<noteq> None then Suc (answered table rs)
      else answered table rs)"
  by (simp add: answered_def)

lemma interact_open:
  "stdin_open p a table rs \<Longrightarrow>
   interact p table a buffer rs =
     (concat (map (line_events table) rs), Inr (foldl (line_buffer table) buffer rs))"
proof (induction rs arbitrary: a buffer)
  case Nil
  then show ?case by simp
next
  case (Cons r rest)
  show ?case
  proof (cases "r \<noteq> [] \<and> first_match table (clean r) \<noteq> None")
    case True
    with Cons.prems have op: "still_open p a" and nxt: "stdin_open p (Suc a) table rest"
      by (auto simp: stdin_open_def still_open_def answered_Cons split: option.splits)
    from True op have h: "handle_line (still_open p a) table buffer r =
        (line_events table r, Inr (line_buffer table buffer r, True))"
      by (simp add: handle_line_open)
    show ?thesis
      using h Cons.IH [OF nxt] by simp
  next
    case False
    with Cons.prems have nxt: "stdin_open p a table rest"
      by (auto simp: stdin_open_def answered_Cons split: option.splits)
    from False have h: "handle_line (still_open p a) table buffer r =
        (line_events table r, Inr (line_buffer table buffer r, False))"
      by (intro handle_line_unmatched) auto
    show ?thesis
      using h Cons.IH [OF nxt] by simp
  qed
qed

lemma interact_closed:
  "stdin_closes p = Some n \<Longrightarrow> a + answered table pre = n \<Longrightarrow> r \<noteq> [] \<Longrightarrow>
   first_match table (clean r) = Some entry \<Longrightarrow>
   interact p table a buffer (pre @ r # post) =
     (concat (map (line_events table) pre)
        @ [Log (clean r), Log (''Responding to prompt: '' @ fst entry), StdinWrite (snd entry)],
      Inl (Raised (BrokenPipeError ''[Errno 32] Broken pipe'')))"
proof (induction pre arbitrary: a buffer)
  case Nil
  then have "\<not> still_open p a"
    by (simp add: still_open_def answered_def)
  with Nil show ?case
    by (simp add: handle_line_closed)
next
  case (Cons x rest)
  show ?case
  proof (cases "x \<noteq> [] \<and> first_match table (clean x) \<noteq> None")
    case True
    with Cons.prems have op: "still_open p a" and nxt: "Suc a + answered table rest = n"
      by (auto simp: still_open_def answered_Cons)
    from True op have h: "handle_line (still_open p a) table buffer x =
        (line_events table x, Inr (line_buffer table buffer x, True))"
      by (simp add: handle_line_open)
    show ?thesis
      using h Cons.IH [OF Cons.prems(1) nxt Cons.prems(3) Cons.prems(4)] by simp
  next
    case False
    with Cons.prems have nxt: "a + answered table rest = n"
      by (auto simp: answered_Cons)
    from False have h: "handle_line (still_open p a) table buffer x =
        (line_events table x, Inr (line_buffer table buffer x, False))"
      by (intro handle_line_unmatched) auto
    show ?thesis
      using h Cons.IH [OF Cons.prems(1) nxt Cons.prems(3) Cons.prems(4)] by simp
  qed
qed

lemma run_command_with_input_eq:
  "spawn w command = Child p \<Longrightarrow>
   run_command_with_input w command cwd description table env =
     (Log (''Running: '' @ description) # Spawn command cwd env
        # fst (interact p table 0 [] (reads p))
        @ (case snd (interact p table 0 [] (reads p)) of
             Inl h \<Rightarrow> [] | Inr b \<Rightarrow> fst (after_loop description p)),
      case snd (interact p table 0 [] (reads p)) of
        Inl h \<Rightarrow> Inl h | Inr b \<Rightarrow> snd (after_loop description p))"
  by (simp add: run_command_with_input_def bind_def log_message_def emit_def popen_def
        split: sum.splits prod.splits)

lemma line_events_writes: "length (stdin_writes (line_events table r)) \<le> 1"
  by (simp add: line_events_def split: option.splits)

lemma ready_line_nonempty: "is_ready_line l \<Longrightarrow> l \<noteq> []"
  by (auto simp: is_ready_line_def)

lemma wait_ready_skip:
  "\<forall>l \<in> set pre. \<not> is_ready_line l \<Longrightarrow>
   wait_ready w en (pre @ rest) =
     (map (\<lambda>r. Log (py_strip r)) (filter (\<lambda>r. r \<noteq> []) pre) @ fst (wait_ready w en rest),
      snd (wait_ready w en rest))"
  by (induction pre) auto

lemma wait_ready_hit:
  "is_ready_line line \<Longrightarrow>
   wait_ready w en (line # post) =
     (case parse_port w line of
        Inl e \<Rightarrow> ([Log (py_strip line)], Inl (Raised e))
      | Inr port \<Rightarrow> ([Log (py_strip line), Sleep 2], Inr (Some port)))"
  using ready_line_nonempty [of line] by simp

lemma split_aux_none:
  "\<not> py_in sep s \<Longrightarrow> sep \<noteq> [] \<Longrightarrow> split_aux sep acc s = [rev acc @ s]"
proof (induction s arbitrary: acc)
  case Nil
  then show ?case by simp
next
  case (Cons c cs)
  then obtain p ps where sep: "sep = p # ps" by (cases sep) auto
  from Cons.prems have a: "\<not> starts_with sep (c # cs)" and b: "\<not> py_in sep cs" by auto
  have "split_aux sep (c # acc) cs = [rev (c # acc) @ cs]"
    using Cons.IH [OF b Cons.prems(2)] .
  with a sep show ?case by simp
qed

lemma parse_port_no_marker:
  "\<not> py_in ''localhost:'' line \<Longrightarrow>
   parse_port w line = Inl (IndexError ''list index out of range'')"
  using split_aux_none [of "''localhost:''" line "[]"]
  by (simp add: parse_port_def py_split_def)

lemma str_3001: "str_int 3001 = ''3001''"
  by (simp add: str_int_def str_nat.simps digit_char_def)

text \<open>\<open>int\<close> reads no string of more than 4300 digits.\<close>

lemma py_in_mem: "py_in (c # cs) s \<Longrightarrow> c \<in> set s"
  by (induction s) auto

lemma digit_facts:
  "is_digit c \<Longrightarrow> \<not> is_int_space c \<and> c \<noteq> CHR ''_'' \<and> c \<noteq> CHR ''-'' \<and> c \<noteq> CHR ''+''"
  by (auto simp: is_digit_def is_int_space_def in_range_def)

lemma py_int_limit:
  assumes "\<forall>c \<in> set s. is_digit c" and "max_str_digits < length s"
  shows "py_int s = None"
proof -
  from assms(2) obtain c cs where s: "s = c # cs"
    by (cases s) auto
  have ne: "s \<noteq> []" using s by simp
  have d: "is_digit c" "is_digit (last s)"
    using assms(1) s last_in_set [OF ne] by auto
  have "dropWhile is_int_space s = s"
    using d(1) digit_facts [of c] s by simp
  moreover have "dropWhile is_int_space (rev s) = rev s"
    using d(2) digit_facts [of "last s"] ne by (cases "rev s") (auto simp: hd_rev [symmetric] dest: arg_cong [of _ _ hd])
  ultimately have strip: "rev (dropWhile is_int_space (rev (dropWhile is_int_space s))) = c # cs"
    using s by simp
  have run: "scan_run s = s"
    using assms(1) by (simp add: scan_run_def takeWhile_eq_all_conv)
  have "\<not> py_in ''__'' s"
    using py_in_mem [of "CHR ''_''" "''_''" s] assms(1) digit_facts by blast
  moreover have "filter is_digit s = s"
    using assms(1) by simp
  moreover have "hd s \<noteq> CHR ''_''" "last s \<noteq> CHR ''_''"
    using d digit_facts s by auto
  ultimately have "over_limit s"
    using run ne assms(2) by (simp add: over_limit_def Let_def)
  then show ?thesis
    using strip d(1) digit_facts [of c] s by (simp add: py_int_def py_int_digits_def)
qed

section \<open>Command Runner: the exit code\<close>

text \<open>
  Claim C4, as stated: whenever the child exits with a non-zero code, \<open>run_command\<close> raises
  an error that carries the step's description and the child's stderr text. It fails when
  the child's output does not decode: the pipes are opened with \<open>text=True\<close>, so the read
  raises \<open>UnicodeDecodeError\<close> inside the reading loop, before \<open>communicate()\<close> is called
  and before the exit code is looked at. A child that writes one line and then bytes that
  are not UTF-8, writes two lines to stderr and exits with code 1 makes \<open>run_command\<close>
  raise \<open>UnicodeDecodeError\<close>: the error has neither the description nor the stderr text.
\<close>

theorem undecodable_output_hides_exit_code:
  "returncode garbled = 1
   \<and> err_text garbled = ''warn1'' @ [CHR 0x0A] @ ''warn2'' @ [CHR 0x0A]
   \<and> run_command (only garbled) [''git'', ''init''] None ''Initializing Git'' None
       = ([Log ''Running: Initializing Git'', Spawn [''git'', ''init''] None None, Log ''out1''],
          Inl (Raised (UnicodeDecodeError (CHR 0x27 # ''utf-8'' @ CHR 0x27
            # '' codec can'' @ CHR 0x27
            # ''t decode byte 0xff in position 0: invalid start byte''))))"
  by (simp add: garbled_def failing_def only_def all_quiet_def run_command_def bind_def
        log_message_def emit_def popen_def after_loop_def loop_end_def raise_def
        py_strip_def is_space_def in_range_def)

text \<open>
  Claim C4, amended. A normal return of \<open>run_command\<close> gives 0, and comes from a child
  whose output ended and decoded and whose exit code is 0. When the child's output ends
  and decodes, \<open>run_command\<close> returns 0 if the exit code is 0, and otherwise raises an
  exception whose text is the step's description, \<open>failed:\<close> and the child's stderr
  text. When a read of stdout, or what \<open>communicate()\<close> reads, does not decode,
  \<open>run_command\<close> raises \<open>UnicodeDecodeError\<close>, whatever the exit code. When a read of
  stdout never returns, \<open>run_command\<close> never returns.
\<close>

theorem run_command_exit_code:
  "(snd (run_command w command cwd description env) = Inr rc \<longrightarrow>
      rc = 0 \<and> (\<exists>p. spawn w command = Child p \<and> ending p = Ends \<and> comm_error p = None
                    \<and> returncode p = 0))
   \<and> (spawn w command = Child p \<longrightarrow> ending p = Ends \<longrightarrow> comm_error p = None \<longrightarrow>
        snd (run_command w command cwd description env)
          = (if returncode p \<noteq> 0
             then Inl (Raised (Exception (description @ '' failed: '' @ err_text p)))
             else Inr 0))
   \<and> (spawn w command = Child p \<longrightarrow> ending p = Ends \<longrightarrow> comm_error p = Some m \<longrightarrow>
        snd (run_command w command cwd description env) = Inl (Raised (UnicodeDecodeError m)))
   \<and> (spawn w command = Child p \<longrightarrow> ending p = Undecodable m \<longrightarrow>
        snd (run_command w command cwd description env) = Inl (Raised (UnicodeDecodeError m)))
   \<and> (spawn w command = Child p \<longrightarrow> ending p = Stalls \<longrightarrow>
        snd (run_command w command cwd description env) = Inl Blocked)"
  by (auto simp: snd_run_command snd_after_loop
        split: spawned.splits if_splits ending.splits option.splits)

theorem run_command_exit_code_witness:
  "snd (run_command all_quiet [''git'', ''init''] None ''Initializing Git'' None) = Inr 0
   \<and> spawn (one_fails [''git'', ''init'']) [''git'', ''init''] = Child failing
   \<and> ending failing = Ends \<and> comm_error failing = None \<and> returncode failing \<noteq> 0
   \<and> snd (run_command (one_fails [''git'', ''init'']) [''git'', ''init''] None
          ''Initializing Git'' None)
       = Inl (Raised (Exception (''Initializing Git failed: '' @ err_text failing)))"
  using run_command_exit_code
      [of all_quiet "[''git'', ''init'']" None "''Initializing Git''" None 0 quiet]
    run_command_exit_code
      [of "one_fails [''git'', ''init'']" "[''git'', ''init'']" None "''Initializing Git''"
          None 0 failing]
  by (simp add: one_fails_def all_quiet_def failing_def quiet_def)

section \<open>Escape-sequence stripping\<close>

text \<open>
  Claim C6, as stated: stripping is idempotent, \<open>strip (strip s) = strip s\<close> for every
  string. It fails: removing a sequence can leave an ESC next to a byte that completes a
  new sequence. In ESC ESC \<open>A\<close> \<open>B\<close> the pattern does not match at the first ESC, matches
  ESC \<open>A\<close> at the second, and leaves ESC \<open>B\<close>, which a second pass removes.
\<close>

theorem strip_not_idempotent:
  "remove_ansi_escape_sequences
     (remove_ansi_escape_sequences [ESC, ESC, CHR ''A'', CHR ''B''])
   \<noteq> remove_ansi_escape_sequences [ESC, ESC, CHR ''A'', CHR ''B'']"
  by (simp add: ESC_def is_fe_def in_range_def)

text \<open>
  Claim C6, amended: stripping a clean string, one in which the pattern matches at no
  position, returns it unchanged.
\<close>

theorem strip_clean_unchanged:
  "no_escape s \<Longrightarrow> remove_ansi_escape_sequences s = s"
  by (induction s) auto

theorem strip_clean_unchanged_witness:
  "no_escape ''npm install'' \<and> remove_ansi_escape_sequences ''npm install'' = ''npm install''"
proof -
  have h: "no_escape ''npm install''"
    by (simp add: ESC_def)
  show ?thesis
    using h strip_clean_unchanged [OF h] by simp
qed

section \<open>Interactive Responder: first match wins\<close>

text \<open>
  Claim C3, as stated: on every line, the response of the first matching key is written,
  followed by a flush and a clear of the accumulation buffer. It fails when the child has
  closed its standard input: the write fills the buffer of the stream, the flush raises
  \<open>BrokenPipeError\<close>, and the exception leaves \<open>run_command_with_input\<close> before the buffer
  is cleared. Here the child closes its standard input without taking any response: the
  response to the first matching key is written, no flush follows, and the runner raises.
\<close>

theorem closed_stdin_not_flushed:
  "run_command_with_input (only (prompting\<lparr>stdin_closes := Some 0\<rparr>))
      [''npx'', ''shadcn@latest'', ''init''] None ''Initializing shadcn/ui'' sample_table None
     = ([Log ''Running: Initializing shadcn/ui'',
         Spawn [''npx'', ''shadcn@latest'', ''init''] None None,
         Log ''setup'', Log '' color?'', Log ''Responding to prompt: color?'',
         StdinWrite (''zinc'' @ [CHR 0x0A])],
        Inl (Raised (BrokenPipeError ''[Errno 32] Broken pipe'')))"
  by (simp add: only_def all_quiet_def prompting_def quiet_def sample_table_def
        run_command_with_input_def bind_def log_message_def emit_def popen_def
        handle_line_def Let_def still_open_def ret_def
        py_strip_def is_space_def in_range_def ESC_def is_fe_def
        is_param_def is_inter_def is_final_def)

text \<open>
  Claim C3, amended. Let \<open>run_command_with_input\<close> start a child. As long as the child
  keeps its standard input open for the responses its output calls for, the runner's
  events are the log of the start, the start, then for every non-empty read, in order,
  the events of that read, then the events of the code after the loop; the events of a
  read are the log of the cleaned line and, when a key of the table occurs in it, the log
  of the first such key in table order, the write of its response and a flush, and
  nothing for any other key; the buffer is cleared on such a read, and otherwise extended
  by the cleaned line. The same holds of the loop from any buffer and any number of
  responses sent before. When the child has closed its standard input after \<open>n\<close>
  responses, the reads up to the next one with a matching key are handled as before; on
  that read the line and the first matching key are logged and the response is written,
  and the runner raises \<open>BrokenPipeError\<close> with no flush and no event after it. No read
  triggers more than one write.
\<close>

theorem first_match_wins:
  assumes "spawn w command = Child p"
  shows "(stdin_open p 0 table (reads p) \<longrightarrow>
            run_command_with_input w command cwd description table env
              = (Log (''Running: '' @ description) # Spawn command cwd env
                   # concat (map (line_events table) (reads p))
                   @ fst (after_loop description p),
                 snd (after_loop description p)))
       \<and> (stdin_open p a table rs \<longrightarrow>
            interact p table a buffer rs
              = (concat (map (line_events table) rs),
                 Inr (foldl (line_buffer table) buffer rs)))
       \<and> (stdin_closes p = Some n \<longrightarrow> reads p = pre @ r # post \<longrightarrow>
          answered table pre = n \<longrightarrow> r \<noteq> [] \<longrightarrow>
          first_match table (clean r) = Some entry \<longrightarrow>
            run_command_with_input w command cwd description table env
              = (Log (''Running: '' @ description) # Spawn command cwd env
                   # concat (map (line_events table) pre)
                   @ [Log (clean r), Log (''Responding to prompt: '' @ fst entry),
                      StdinWrite (snd entry)],
                 Inl (Raised (BrokenPipeError ''[Errno 32] Broken pipe''))))
       \<and> length (stdin_writes (line_events table r)) \<le> 1"
proof -
  have open_run: "stdin_open p 0 table (reads p) \<Longrightarrow>
      run_command_with_input w command cwd description table env
        = (Log (''Running: '' @ description) # Spawn command cwd env
             # concat (map (line_events table) (reads p)) @ fst (after_loop description p),
           snd (after_loop description p))"
    using assms by (simp add: run_command_with_input_eq interact_open)
  have closed_run: "stdin_closes p = Some n \<Longrightarrow> reads p = pre @ r # post \<Longrightarrow>
      answered table pre = n \<Longrightarrow> r \<noteq> [] \<Longrightarrow> first_match table (clean r) = Some entry \<Longrightarrow>
      run_command_with_input w command cwd description table env
        = (Log (''Running: '' @ description) # Spawn command cwd env
             # concat (map (line_events table) pre)
             @ [Log (clean r), Log (''Responding to prompt: '' @ fst entry),
                StdinWrite (snd entry)],
           Inl (Raised (BrokenPipeError ''[Errno 32] Broken pipe'')))"
    using assms interact_closed [of p n 0 table pre r entry "[]" post]
    by (simp add: run_command_with_input_eq)
  show ?thesis
    using open_run closed_run interact_open [of p a table rs buffer]
      line_events_writes [of table r]
    by blast
qed

text \<open>In the witness the third key occurs in the line as well; the second, which
  comes first among the matching keys, is the one answered.\<close>

theorem first_match_wins_witness:
  "spawn (only prompting) [''npx'', ''shadcn@latest'', ''init''] = Child prompting
   \<and> stdin_open prompting 0 sample_table (reads prompting)
   \<and> first_match sample_table '' color?'' = Some (''color?'', ''zinc'' @ [CHR 0x0A])
   \<and> run_command_with_input (only prompting) [''npx'', ''shadcn@latest'', ''init''] None
        ''Initializing shadcn/ui'' sample_table None
       = ([Log ''Running: Initializing shadcn/ui'',
           Spawn [''npx'', ''shadcn@latest'', ''init''] None None,
           Log ''setup'', Log '' color?'', Log ''Responding to prompt: color?'',
           StdinWrite (''zinc'' @ [CHR 0x0A]), StdinFlush, Log ''done'', Exited],
          Inr 0)"
  using first_match_wins
    [of "only prompting" "[''npx'', ''shadcn@latest'', ''init'']" prompting sample_table
        None "''Initializing shadcn/ui''" None 0 "[]" "[]" 0 "[]" "[]" "[]" "([], [])"]
  by (simp add: only_def all_quiet_def prompting_def quiet_def sample_table_def
        stdin_open_def first_match_def line_events_def clean_def fst_after_loop
        snd_after_loop py_strip_def is_space_def in_range_def ESC_def is_fe_def
        is_param_def is_inter_def is_final_def)

section \<open>Command Runner: what is logged, and when\<close>

text \<open>
  Claim C8, as stated: while the child runs, the runner streams the child's merged stdout
  and stderr line by line, each line a log event of its own. It fails for stderr:
  \<open>run_command\<close> opens a separate pipe for it and reads it only in \<open>communicate()\<close>, after
  the reading loop has seen the child exit. A child that writes two lines to stderr has
  neither of them logged as a line; both arrive in one event, after the exit.
\<close>

theorem stderr_not_streamed:
  "run_command noisy_world [''npm'', ''run'', ''build''] None ''Building project'' None
     = ([Log ''Running: Building project'', Spawn [''npm'', ''run'', ''build''] None None,
         Log ''out1'', Exited, Log (''warn1'' @ [CHR 0x0A] @ ''warn2'' @ [CHR 0x0A])], Inr 0)
   \<and> Log ''warn1'' \<notin> set (fst (run_command noisy_world [''npm'', ''run'', ''build''] None
                                   ''Building project'' None))
   \<and> Log ''warn2'' \<notin> set (fst (run_command noisy_world [''npm'', ''run'', ''build''] None
                                   ''Building project'' None))"
  by (simp add: prod_eq_iff fst_run_command snd_run_command fst_after_loop snd_after_loop
        noisy_world_def noisy_def all_quiet_def py_strip_def is_space_def in_range_def)

text \<open>
  Claim C8, amended. The runner logs the start of the command and starts it; it then logs
  every non-empty read of the child's stdout, stripped, one event per read and in the
  order read, all of them before the loop sees the child exit. Only after that exit does
  it log what \<open>communicate()\<close> returns, the rest of stdout and then the whole of stderr,
  each as one event if it is not empty (nothing if it does not decode). A child that
  writes some lines to stdout and then neither writes more nor closes it, as one blocked
  on a full stderr pipe, has exactly these lines logged, nothing of its stderr, and
  \<open>run_command\<close> never returns; a read that does not decode ends the log in the same way.
\<close>

theorem run_command_log:
  assumes "spawn w command = Child p"
  shows "fst (run_command w command cwd description env) =
           [Log (''Running: '' @ description), Spawn command cwd env]
           @ map (\<lambda>r. Log (py_strip r)) (filter (\<lambda>r. r \<noteq> []) (reads p))
           @ (case ending p of
                Ends \<Rightarrow>
                  Exited
                  # (case comm_error p of
                       Some m \<Rightarrow> []
                     | None \<Rightarrow>
                         (if rest_out p \<noteq> [] then [Log (rest_out p)] else [])
                         @ (if err_text p \<noteq> [] then [Log (err_text p)] else []))
              | Stalls \<Rightarrow> []
              | Undecodable m \<Rightarrow> [])
       \<and> (ending p = Stalls \<longrightarrow>
            snd (run_command w command cwd description env) = Inl Blocked)"
  using assms
  by (simp add: fst_run_command snd_run_command stream_output_eq fst_after_loop snd_after_loop)

text \<open>The witness: a child that writes one line to stdout and two to stderr and then
  stalls. The line is logged although the child never exits.\<close>

theorem run_command_log_witness:
  "spawn (only stalled) [''npm'', ''run'', ''build''] = Child stalled
   \<and> reads stalled = [''out1'' @ [CHR 0x0A]]
   \<and> err_text stalled = ''warn1'' @ [CHR 0x0A] @ ''warn2'' @ [CHR 0x0A]
   \<and> ending stalled = Stalls
   \<and> run_command (only stalled) [''npm'', ''run'', ''build''] None ''Building project'' None
       = ([Log ''Running: Building project'', Spawn [''npm'', ''run'', ''build''] None None,
           Log ''out1''], Inl Blocked)"
  using run_command_log
    [of "only stalled" "[''npm'', ''run'', ''build'']" stalled None "''Building project''" None]
  by (simp add: prod_eq_iff only_def stalled_def noisy_def all_quiet_def py_strip_def
        is_space_def in_range_def)

section \<open>Dev Server Launcher: the ready line\<close>

text \<open>
  Claim C7, as stated: a line with a ready marker followed by \<open>localhost:3001\<close> makes the
  launcher report port 3001 and open \<open>http://localhost:3001\<close>. It fails on the line
  \<open>- Local: http://localhost:3001/\<close>, a URL with a trailing slash: \<open>int\<close> raises
  \<open>ValueError\<close> on \<open>3001/\<close>, no port is reported and no browser is opened.
\<close>

theorem trailing_slash_not_parsed:
  "is_ready_line (''- Local: http://localhost:3001/'' @ [CHR 0x0A])
   \<and> py_in ''localhost:3001'' (''- Local: http://localhost:3001/'' @ [CHR 0x0A])
   \<and> open_browser sample_cfg
   \<and> snd (start_dev_server sample_cfg
            (serving (''- Local: http://localhost:3001/'' @ [CHR 0x0A])) ''/tmp/app'')
       = Inl (Raised (ValueError (''invalid literal for int() with base 10: ''
                        @ CHR 0x27 # ''3001/'' @ [CHR 0x27])))
   \<and> OpenBrowser ''http://localhost:3001''
       \<notin> set (fst (start_dev_server sample_cfg
                      (serving (''- Local: http://localhost:3001/'' @ [CHR 0x0A])) ''/tmp/app''))"
  by (simp add: is_ready_line_def sample_cfg_def start_dev_server_def serving_def all_quiet_def
        quiet_def bind_def log_message_def emit_def popen_def parse_port_def py_split_def
        py_strip_def is_space_def in_range_def py_int_def is_int_space_def py_int_digits_def over_limit_def scan_run_def max_str_digits_def int_error_def int_body_def
        is_digit_def digit_val_def)

text \<open>
  Claim C7, amended: if the first line with a ready marker that is read within the
  timeout has, between its first \<open>localhost:\<close> and the next one (or the end of the line),
  a text that \<open>int\<close> reads as 3001 once stripped, then \<open>start_dev_server\<close> logs the
  non-empty lines read so far, sleeps 2 seconds, reports port 3001 and, when
  \<open>open_browser\<close> is set, opens exactly \<open>http://localhost:3001\<close>; it returns without
  raising.
\<close>

theorem ready_line_3001:
  assumes "spawn w [''npm'', ''run'', ''dev''] = Child p"
    and "reads p = pre @ line # post"
    and "\<forall>l \<in> set pre. \<not> is_ready_line l"
    and "is_ready_line line"
    and "py_split line ''localhost:'' = a # seg # pieces"
    and "py_int (py_strip seg) = Some 3001"
  shows "start_dev_server cfg w dir =
    ([Log ''Starting development server...'', Spawn [''npm'', ''run'', ''dev''] (Some dir) None]
     @ map (\<lambda>r. Log (py_strip r)) (filter (\<lambda>r. r \<noteq> []) pre)
     @ [Log (py_strip line), Sleep 2, Log ''Development server is ready on port 3001!'']
     @ (if open_browser cfg
        then [Log ''Opening in browser at port 3001...'', OpenBrowser ''http://localhost:3001'']
        else []),
     Inr ())"
proof -
  have pp: "parse_port w line = Inr 3001"
    using assms(5,6) by (simp add: parse_port_def)
  have wr: "wait_ready w (ending p) (reads p) =
      (map (\<lambda>r. Log (py_strip r)) (filter (\<lambda>r. r \<noteq> []) pre) @ [Log (py_strip line), Sleep 2],
       Inr (Some 3001))"
    using wait_ready_skip [OF assms(3), of w "ending p" "line # post"]
      wait_ready_hit [OF assms(4), of w "ending p" post] pp
    by (simp add: assms(2))
  show ?thesis
    by (simp add: start_dev_server_def bind_def log_message_def emit_def popen_def assms(1) wr
          announce_ready_def ret_def str_3001)
qed

theorem ready_line_3001_witness:
  "start_dev_server sample_cfg (serving (''- Local: http://localhost:3001'' @ [CHR 0x0A])) ''/tmp/app''
   = ([Log ''Starting development server...'',
       Spawn [''npm'', ''run'', ''dev''] (Some ''/tmp/app'') None,
       Log ''starting'', Log ''- Local: http://localhost:3001'', Sleep 2,
       Log ''Development server is ready on port 3001!'',
       Log ''Opening in browser at port 3001...'', OpenBrowser ''http://localhost:3001''],
      Inr ())"
proof -
  let ?line = "''- Local: http://localhost:3001'' @ [CHR 0x0A]"
  let ?p = "quiet\<lparr>reads := [''starting'' @ [CHR 0x0A], [], ?line]\<rparr>"
  have 1: "spawn (serving ?line) [''npm'', ''run'', ''dev''] = Child ?p"
    by (simp add: serving_def all_quiet_def)
  have 2: "reads ?p = [''starting'' @ [CHR 0x0A], []] @ ?line # []"
    by simp
  have 3: "\<forall>l \<in> set [''starting'' @ [CHR 0x0A], []]. \<not> is_ready_line l"
    by (simp add: is_ready_line_def)
  have 4: "is_ready_line ?line"
    by (simp add: is_ready_line_def)
  have 5: "py_split ?line ''localhost:'' = ''- Local: http://'' # (''3001'' @ [CHR 0x0A]) # []"
    by (simp add: py_split_def)
  have 6: "py_int (py_strip (''3001'' @ [CHR 0x0A])) = Some 3001"
    by (simp add: py_strip_def is_space_def in_range_def py_int_def is_int_space_def
          py_int_digits_def over_limit_def scan_run_def max_str_digits_def int_error_def int_body_def is_digit_def digit_val_def)
  show ?thesis
    using ready_line_3001 [OF 1 2 3 4 5 6, of sample_cfg "''/tmp/app''"]
    by (simp add: sample_cfg_def py_strip_def is_space_def in_range_def)
qed

section \<open>The pipeline as a sequence of steps\<close>

lemma bind_ret_unit: "bind a ret = (a :: ('e, unit) outcome)"
  by (cases a; cases "snd a") (auto simp: bind_def ret_def)

lemma run_body_exec: "run_body cfg w = exec (plan cfg w)"
  by (simp add: run_body_def plan_def Let_def bind_ret_unit)

lemma fst_exec_Cons:
  "fst (exec ((t, b) # rest)) =
     map (Pair t) (fst b) @ (case snd b of Inl err \<Rightarrow> [] | Inr u \<Rightarrow> fst (exec rest))"
  by (simp add: fst_bind in_step_def)

lemma snd_exec_Cons:
  "snd (exec ((t, b) # rest)) = (case snd b of Inl err \<Rightarrow> Inl err | Inr u \<Rightarrow> snd (exec rest))"
  by (simp add: snd_bind in_step_def)

lemma exec_reach:
  "(s, e) \<in> set (fst (exec xs)) \<Longrightarrow>
   \<exists>pre a post. xs = pre @ (s, a) # post \<and> e \<in> set (fst a)
     \<and> fst (exec xs) =
         concat (map (\<lambda>x. map (Pair (fst x)) (fst (snd x))) pre) @ map (Pair s) (fst a)
         @ (case snd a of Inl err \<Rightarrow> [] | Inr u \<Rightarrow> fst (exec post))
     \<and> snd (exec xs) = (case snd a of Inl err \<Rightarrow> Inl err | Inr u \<Rightarrow> snd (exec post))"
proof (induction xs)
  case Nil
  then show ?case by (simp add: ret_def)
next
  case (Cons x rest)
  obtain t b where x: "x = (t, b)" by (cases x)
  show ?case
  proof (cases "(s, e) \<in> set (map (Pair t) (fst b))")
    case True
    then have "s = t" and "e \<in> set (fst b)" by auto
    then have "x # rest = [] @ (s, b) # rest \<and> e \<in> set (fst b)
      \<and> fst (exec (x # rest)) =
          concat (map (\<lambda>x. map (Pair (fst x)) (fst (snd x))) []) @ map (Pair s) (fst b)
          @ (case snd b of Inl err \<Rightarrow> [] | Inr u \<Rightarrow> fst (exec rest))
      \<and> snd (exec (x # rest)) = (case snd b of Inl err \<Rightarrow> Inl err | Inr u \<Rightarrow> snd (exec rest))"
      using x by (simp add: fst_exec_Cons snd_exec_Cons del: exec.simps)
    then show ?thesis by blast
  next
    case False
    with Cons.prems x obtain u where ok: "snd b = Inr u" and inrest: "(s, e) \<in> set (fst (exec rest))"
      by (auto simp: fst_exec_Cons simp del: exec.simps split: sum.splits)
    from Cons.IH [OF inrest] obtain pre a post where
      d: "rest = pre @ (s, a) # post" "e \<in> set (fst a)"
      "fst (exec rest) =
         concat (map (\<lambda>x. map (Pair (fst x)) (fst (snd x))) pre) @ map (Pair s) (fst a)
         @ (case snd a of Inl err \<Rightarrow> [] | Inr u \<Rightarrow> fst (exec post))"
      "snd (exec rest) = (case snd a of Inl err \<Rightarrow> Inl err | Inr u \<Rightarrow> snd (exec post))"
      by blast
    have "x # rest = (x # pre) @ (s, a) # post \<and> e \<in> set (fst a)
      \<and> fst (exec (x # rest)) =
          concat (map (\<lambda>x. map (Pair (fst x)) (fst (snd x))) (x # pre)) @ map (Pair s) (fst a)
          @ (case snd a of Inl err \<Rightarrow> [] | Inr u \<Rightarrow> fst (exec post))
      \<and> snd (exec (x # rest)) = (case snd a of Inl err \<Rightarrow> Inl err | Inr u \<Rightarrow> snd (exec post))"
      using x ok d by (simp add: fst_exec_Cons snd_exec_Cons del: exec.simps)
    then show ?thesis by blast
  qed
qed

lemma exec_tags: "(s, e) \<in> set (fst (exec xs)) \<Longrightarrow> \<exists>a. (s, a) \<in> set xs \<and> e \<in> set (fst a)"
proof -
  assume "(s, e) \<in> set (fst (exec xs))"
  from exec_reach [OF this] obtain pre a post where "xs = pre @ (s, a) # post" "e \<in> set (fst a)"
    by blast
  then have "(s, a) \<in> set xs \<and> e \<in> set (fst a)" by simp
  then show ?thesis by blast
qed

lemma sorted_const: "sorted (map (\<lambda>x. (c :: nat)) xs)"
  by (induction xs) auto

lemma exec_sorted:
  "sorted_wrt (<) (map (\<lambda>x. step_no (fst x)) xs) \<Longrightarrow>
   sorted (map (\<lambda>x. step_no (fst x)) (fst (exec xs)))"
proof (induction xs)
  case Nil
  then show ?case by (simp add: ret_def)
next
  case (Cons x rest)
  obtain t b where x: "x = (t, b)" by (cases x)
  have later: "\<forall>y \<in> set (fst (exec rest)). step_no t \<le> step_no (fst y)"
  proof
    fix y assume "y \<in> set (fst (exec rest))"
    then have "(fst y, snd y) \<in> set (fst (exec rest))" by simp
    from exec_tags [OF this] obtain a where "(fst y, a) \<in> set rest" by blast
    with Cons.prems x show "step_no t \<le> step_no (fst y)" by force
  qed
  have "sorted (map (\<lambda>x. step_no (fst x)) (fst (exec rest)))"
    using Cons by simp
  with later x show ?case
    by (auto simp: fst_exec_Cons sorted_append o_def sorted_const simp del: exec.simps
          split: sum.splits)
qed

lemma plan_tags:
  "map fst (plan cfg w) = [DepCheck, Scaffold, Features, Shadcn, GitInit, BuildStep, Editor, DevServer]"
  by (simp add: plan_def Let_def)

lemma plan_sorted: "sorted_wrt (<) (map (\<lambda>x. step_no (fst x)) (plan cfg w))"
  by (simp add: plan_def Let_def)

lemma body_sorted: "sorted (map (\<lambda>x. step_no (fst x)) (fst (run_body cfg w)))"
  using exec_sorted [OF plan_sorted] by (simp add: run_body_exec)

lemma body_tags: "x \<in> set (fst (run_body cfg w)) \<Longrightarrow> step_no (fst x) \<le> 8"
proof -
  assume "x \<in> set (fst (run_body cfg w))"
  then have "(fst x, snd x) \<in> set (fst (exec (plan cfg w)))" by (simp add: run_body_exec)
  from exec_tags [OF this] obtain a where "(fst x, a) \<in> set (plan cfg w)" by blast
  then have "fst x \<in> set (map fst (plan cfg w))" by force
  then show ?thesis unfolding plan_tags by auto
qed

lemma run_sorted: "sorted (map (\<lambda>x. step_no (fst x)) (run cfg w))"
proof -
  have "\<forall>x \<in> set (fst (run_body cfg w)). step_no (fst x) \<le> 9"
    using body_tags [of _ cfg w] by fastforce
  then show ?thesis
    using body_sorted [of cfg w]
    by (simp add: run_def sorted_append split: sum.splits halt.splits)
qed

section \<open>What each step starts and how it ends\<close>

lemma spawns_append: "spawns (xs @ ys) = spawns xs @ spawns ys"
  by (induction xs rule: spawns.induct) auto

lemma mem_spawns: "Spawn c cwd env \<in> set evs \<Longrightarrow> c \<in> set (spawns evs)"
  by (induction evs rule: spawns.induct) auto

lemma spawns_stream_output: "spawns (stream_output rs) = []"
  by (induction rs) auto

lemma spawns_scaffold_stream: "spawns (scaffold_stream rs) = []"
  by (induction rs) auto

lemma spawns_respond: "spawns (fst (respond opn table line)) = []"
  by (induction table) auto

lemma spawns_handle_line: "spawns (fst (handle_line opn table buffer r)) = []"
  by (simp add: handle_line_def Let_def fst_bind log_message_def emit_def ret_def
        spawns_respond split: sum.splits)

lemma spawns_interact: "spawns (fst (interact p table a buffer rs)) = []"
proof (induction rs arbitrary: a buffer)
  case Nil
  then show ?case by simp
next
  case (Cons r rest)
  show ?case
    using spawns_handle_line [of "still_open p a" table buffer r] Cons.IH
    by (simp add: spawns_append split: sum.splits prod.splits)
qed

lemma spawns_after_loop: "spawns (fst (after_loop d p)) = []"
  by (simp add: fst_after_loop split: ending.splits option.splits)

lemma commands_append: "commands (xs @ ys) = commands xs @ commands ys"
  by (induction xs rule: commands.induct) auto

lemma commands_tagged: "commands (map (Pair s) evs) = map (Pair s) (spawns evs)"
  by (induction evs rule: spawns.induct) auto

lemma spawns_run_command: "spawns (fst (run_command w c cwd d env)) = [c]"
  by (simp add: fst_run_command spawns_append spawns_stream_output spawns_after_loop
        split: spawned.splits)

lemma snd_run_command_with_input:
  "snd (run_command_with_input w command cwd description responses env) =
     (case spawn w command of
        SpawnError m \<Rightarrow> Inl (Raised (OSError m))
      | Child p \<Rightarrow>
          (case snd (interact p responses 0 [] (reads p)) of
             Inl h \<Rightarrow> Inl h
           | Inr b \<Rightarrow> snd (after_loop description p)))"
  by (simp add: run_command_with_input_def snd_bind log_message_def emit_def popen_def
        split: spawned.splits sum.splits)

lemma fst_run_command_with_input:
  "fst (run_command_with_input w command cwd description responses env) =
     [Log (''Running: '' @ description), Spawn command cwd env]
     @ (case spawn w command of
          SpawnError m \<Rightarrow> []
        | Child p \<Rightarrow>
            fst (interact p responses 0 [] (reads p))
            @ (case snd (interact p responses 0 [] (reads p)) of
                 Inl h \<Rightarrow> []
               | Inr b \<Rightarrow> fst (after_loop description p)))"
  by (simp add: run_command_with_input_def fst_bind snd_bind log_message_def emit_def popen_def
        split: spawned.splits sum.splits)

lemma spawns_run_command_with_input:
  "spawns (fst (run_command_with_input w c cwd d responses env)) = [c]"
  by (simp add: fst_run_command_with_input spawns_append spawns_interact spawns_after_loop
        split: spawned.splits sum.splits)

lemma fst_discard: "fst (discard a) = fst a"
  by (simp add: discard_def fst_bind ret_def split: sum.splits)

lemma snd_discard: "snd (discard a) = (case snd a of Inl e \<Rightarrow> Inl e | Inr v \<Rightarrow> Inr ())"
  by (simp add: discard_def snd_bind ret_def split: sum.splits)

text \<open>A step that is one guarded call of the Command Runner.\<close>

lemma guarded_spawns:
  "spawns (fst (if flag then bind (emit (Progress m)) (\<lambda>_. discard (run_command w c cwd d env))
                else ret ()))
   = (if flag then [c] else [])"
  by (simp add: fst_bind snd_bind emit_def ret_def fst_discard spawns_append spawns_run_command)

lemma guarded_result:
  "snd (if flag then bind (emit (Progress m)) (\<lambda>_. discard (run_command w c cwd d env))
        else ret ())
   = (if flag then
        (case snd (run_command w c cwd d env) of Inl h \<Rightarrow> Inl h | Inr rc \<Rightarrow> Inr ())
      else Inr ())"
  by (simp add: snd_bind emit_def ret_def snd_discard)

lemma spawns_scaffold: "spawns (fst (scaffold cfg w dir)) = [create_command cfg]"
  by (simp add: scaffold_def fst_bind snd_bind emit_def log_message_def popen_def ret_def
        raise_def block_def loop_end_def stderr_read_def spawns_append spawns_scaffold_stream
        split: spawned.splits ending.splits option.splits)

lemma snd_scaffold:
  "snd (scaffold cfg w dir) =
     (case spawn w (create_command cfg) of
        SpawnError t \<Rightarrow> Inl (Raised (OSError t))
      | Child p \<Rightarrow>
          (case ending p of
             Ends \<Rightarrow>
               if returncode p \<noteq> 0 then
                 (case comm_error p of
                    Some m \<Rightarrow> Inl (Raised (UnicodeDecodeError m))
                  | None \<Rightarrow>
                      Inl (Raised (Exception (''Project creation failed: '' @ err_text p))))
               else Inr ()
           | Stalls \<Rightarrow> Inl Blocked
           | Undecodable m \<Rightarrow> Inl (Raised (UnicodeDecodeError m))))"
  by (simp add: scaffold_def snd_bind emit_def log_message_def popen_def ret_def
        raise_def block_def loop_end_def stderr_read_def
        split: spawned.splits ending.splits option.splits)

lemma snd_shadcn_body:
  "snd (setup_shadcn_body cfg w dir) =
     (case snd (run_command w ([''npm'', ''install'', ''--save-dev''] @ base_deps) (Some dir)
                  ''Installing dependencies'' None) of
        Inl e \<Rightarrow> Inl e
      | Inr rc \<Rightarrow>
          (case snd (run_command_with_input w [''npx'', ''shadcn@latest'', ''init''] (Some dir)
                       ''Initializing shadcn/ui'' (shadcn_responses cfg)
                       (Some [(''NPM_CONFIG_LEGACY_PEER_DEPS'', ''true'')])) of
             Inl e \<Rightarrow> Inl e
           | Inr rc' \<Rightarrow> Inr ()))"
  by (simp add: setup_shadcn_body_def snd_bind log_message_def emit_def split: sum.splits)

lemma spawns_shadcn_body:
  "spawns (fst (setup_shadcn_body cfg w dir)) =
     ([''npm'', ''install'', ''--save-dev''] @ base_deps)
     # (case snd (run_command w ([''npm'', ''install'', ''--save-dev''] @ base_deps) (Some dir)
                    ''Installing dependencies'' None) of
          Inl e \<Rightarrow> []
        | Inr rc \<Rightarrow> [[''npx'', ''shadcn@latest'', ''init'']])"
  by (simp add: setup_shadcn_body_def fst_bind snd_bind log_message_def emit_def spawns_append
        spawns_run_command spawns_run_command_with_input split: sum.splits)

lemma snd_shadcn_step: "snd (shadcn_step cfg w dir) = snd (setup_shadcn_body cfg w dir)"
  by (simp add: shadcn_step_def snd_bind emit_def setup_shadcn_and_utilities_def
        split: sum.splits halt.splits)

lemma spawns_shadcn_step:
  "spawns (fst (shadcn_step cfg w dir)) = spawns (fst (setup_shadcn_body cfg w dir))"
  by (simp add: shadcn_step_def fst_bind snd_bind emit_def setup_shadcn_and_utilities_def
        spawns_append split: sum.splits halt.splits)

lemma spawns_features: "spawns (fst (features_step cfg dir)) = []"
  by (simp add: features_step_def fst_bind emit_def ret_def install_additional_features_def raise_def)

lemma spawns_dev_server:
  "spawns (fst (dev_server_step cfg w dir)) = (if start_dev cfg then [[''npm'', ''run'', ''dev'']] else [])"
proof -
  have wr: "\<And>en rs. spawns (fst (wait_ready w en rs)) = []"
  proof -
    fix en rs show "spawns (fst (wait_ready w en rs)) = []"
      by (induction rs) (auto split: sum.splits ending.splits)
  qed
  have an: "\<And>r. spawns (fst (announce_ready cfg r)) = []"
    by (simp add: announce_ready_def ret_def fst_bind log_message_def emit_def split: option.splits)
  show ?thesis
    by (simp add: dev_server_step_def start_dev_server_def fst_bind snd_bind emit_def ret_def
          log_message_def popen_def spawns_append wr an split: spawned.splits sum.splits)
qed

lemma snd_subprocess_run:
  "snd (subprocess_run w c) =
     (case spawn w c of
        SpawnError m \<Rightarrow> Inl (Raised (OSError m))
      | Child p \<Rightarrow>
          (case ending p of
             Ends \<Rightarrow>
               (case comm_error p of
                  Some m \<Rightarrow> Inl (Raised (UnicodeDecodeError m))
                | None \<Rightarrow> Inr (returncode p))
           | Stalls \<Rightarrow> Inl Blocked
           | Undecodable m \<Rightarrow> Inl (Raised (UnicodeDecodeError m))))"
  by (simp add: subprocess_run_def snd_bind popen_def ret_def raise_def block_def
        communicate_def split: spawned.splits ending.splits option.splits)

lemma fst_subprocess_run: "fst (subprocess_run w c) = [Spawn c None None]"
  by (simp add: subprocess_run_def fst_bind popen_def ret_def raise_def block_def
        communicate_def split: spawned.splits ending.splits option.splits)

lemma exits_zero_run: "exits_zero w c \<longleftrightarrow> snd (subprocess_run w c) = Inr 0"
  by (auto simp: exits_zero_def snd_subprocess_run
        split: spawned.splits ending.splits option.splits)

lemma stalls_run: "stalls w c \<longleftrightarrow> snd (subprocess_run w c) = Inl Blocked"
  by (auto simp: stalls_def snd_subprocess_run
        split: spawned.splits ending.splits option.splits)

lemma snd_check_globals:
  "snd (check_globals w pkgs) = Inr u \<longleftrightarrow> (\<forall>pkg \<in> set pkgs. exits_zero w [''npm'', ''list'', ''-g'', pkg])"
  by (induction pkgs)
     (auto simp: ret_def raise_def snd_bind exits_zero_run split: sum.splits)

lemma check_globals_blocked:
  "snd (check_globals w pkgs) = Inl Blocked \<Longrightarrow>
   \<exists>pkg \<in> set pkgs. stalls w [''npm'', ''list'', ''-g'', pkg]"
  by (induction pkgs)
     (auto simp: ret_def raise_def snd_bind stalls_run split: sum.splits if_splits)

lemma spawns_check_globals:
  "set (spawns (fst (check_globals w pkgs))) \<subseteq> (\<lambda>pkg. [''npm'', ''list'', ''-g'', pkg]) ` set pkgs"
  by (induction pkgs)
     (auto simp: ret_def raise_def fst_bind fst_subprocess_run spawns_append split: sum.splits)

lemma spawns_check_globals_ok:
  "\<forall>pkg \<in> set pkgs. exits_zero w [''npm'', ''list'', ''-g'', pkg] \<Longrightarrow>
   fst (check_globals w pkgs) = map (\<lambda>pkg. Spawn [''npm'', ''list'', ''-g'', pkg] None None) pkgs"
  by (induction pkgs)
     (auto simp: ret_def raise_def fst_bind fst_subprocess_run exits_zero_run
        split: sum.splits)

lemma snd_body:
  "snd (check_dependencies_body w) =
     (case snd (subprocess_run w [''node'', ''--version'']) of
        Inl e \<Rightarrow> Inl e
      | Inr a \<Rightarrow>
          (case snd (subprocess_run w [''npm'', ''--version'']) of
             Inl e \<Rightarrow> Inl e
           | Inr b \<Rightarrow>
               if a \<noteq> 0 \<or> b \<noteq> 0
               then Inl (Raised (Exception ''Node.js and npm are required but not found''))
               else (case snd (check_globals w [''next'', ''create-next-app'', ''typescript'']) of
                       Inl e \<Rightarrow> Inl e
                     | Inr u \<Rightarrow> Inr True)))"
  by (simp add: check_dependencies_body_def snd_bind ret_def raise_def del: check_globals.simps
        split: sum.splits)

lemma snd_body_ok:
  "(\<exists>ok. snd (check_dependencies_body w) = Inr ok) \<longleftrightarrow>
   (\<forall>c \<in> set (step_commands cfg DepCheck). exits_zero w c)"
proof -
  have g: "(\<exists>u. snd (check_globals w [''next'', ''create-next-app'', ''typescript'']) = Inr u)
      \<longleftrightarrow> exits_zero w [''npm'', ''list'', ''-g'', ''next'']
          \<and> exits_zero w [''npm'', ''list'', ''-g'', ''create-next-app'']
          \<and> exits_zero w [''npm'', ''list'', ''-g'', ''typescript'']"
    using snd_check_globals [of w "[''next'', ''create-next-app'', ''typescript'']"] by simp
  show ?thesis
  proof (cases "snd (subprocess_run w [''node'', ''--version''])")
    case (Inl e)
    then show ?thesis by (simp add: snd_body exits_zero_run)
  next
    case a: (Inr a)
    show ?thesis
    proof (cases "snd (subprocess_run w [''npm'', ''--version''])")
      case (Inl e)
      then show ?thesis using a by (simp add: snd_body exits_zero_run)
    next
      case b: (Inr b)
      show ?thesis
      proof (cases "a \<noteq> 0 \<or> b \<noteq> 0")
        case True
        then show ?thesis using a b by (auto simp: snd_body exits_zero_run)
      next
        case False
        then have z: "a = 0" "b = 0" by auto
        have body: "snd (check_dependencies_body w) =
            (case snd (check_globals w [''next'', ''create-next-app'', ''typescript'']) of
               Inl e \<Rightarrow> Inl e | Inr u \<Rightarrow> Inr True)"
          using a b z by (simp add: snd_body del: check_globals.simps)
        have l: "(\<exists>ok. snd (check_dependencies_body w) = Inr ok)
            \<longleftrightarrow> (\<exists>u. snd (check_globals w [''next'', ''create-next-app'', ''typescript'']) = Inr u)"
          unfolding body
          by (cases "snd (check_globals w [''next'', ''create-next-app'', ''typescript''])")
             (auto simp del: check_globals.simps)
        have r: "(\<forall>c \<in> set (step_commands cfg DepCheck). exits_zero w c)
            \<longleftrightarrow> exits_zero w [''npm'', ''list'', ''-g'', ''next'']
                \<and> exits_zero w [''npm'', ''list'', ''-g'', ''create-next-app'']
                \<and> exits_zero w [''npm'', ''list'', ''-g'', ''typescript'']"
          using a b z by (simp add: exits_zero_run del: check_globals.simps)
        show ?thesis unfolding l r g ..
      qed
    qed
  qed
qed

lemma snd_body_True: "snd (check_dependencies_body w) = Inr ok \<Longrightarrow> ok"
  by (simp add: snd_body del: check_globals.simps split: sum.splits if_splits)

lemma body_blocked:
  "snd (check_dependencies_body w) = Inl Blocked \<Longrightarrow>
   \<exists>c \<in> set (step_commands cfg DepCheck). stalls w c"
proof -
  assume b: "snd (check_dependencies_body w) = Inl Blocked"
  have g: "snd (check_globals w [''next'', ''create-next-app'', ''typescript'']) = Inl Blocked \<Longrightarrow>
      \<exists>c \<in> set (step_commands cfg DepCheck). stalls w c"
    using check_globals_blocked [of w "[''next'', ''create-next-app'', ''typescript'']"]
    by auto
  show ?thesis
  proof (cases "snd (subprocess_run w [''node'', ''--version''])")
    case (Inl h)
    with b have "stalls w [''node'', ''--version'']"
      by (simp add: snd_body stalls_run)
    then show ?thesis by auto
  next
    case a: (Inr a)
    show ?thesis
    proof (cases "snd (subprocess_run w [''npm'', ''--version''])")
      case (Inl h)
      with b a have "stalls w [''npm'', ''--version'']"
        by (simp add: snd_body stalls_run)
      then show ?thesis by auto
    next
      case (Inr b')
      with a b have "snd (check_globals w [''next'', ''create-next-app'', ''typescript''])
          = Inl Blocked"
        by (simp add: snd_body del: check_globals.simps split: if_splits sum.splits)
      then show ?thesis by (rule g)
    qed
  qed
qed

lemma snd_dependency_step:
  "snd (dependency_step w) =
     (if \<forall>c \<in> set (step_commands cfg DepCheck). exits_zero w c then Inr ()
      else if snd (check_dependencies_body w) = Inl Blocked then Inl Blocked
      else Inl (Raised (Exception ''Required dependencies not found. Please run setup.py first'')))"
proof (cases "snd (check_dependencies_body w)")
  case (Inl h)
  then have "\<not> (\<forall>c \<in> set (step_commands cfg DepCheck). exits_zero w c)"
    using snd_body_ok [of w cfg] by simp
  then show ?thesis
    using Inl
    by (cases h)
       (simp_all add: dependency_step_def snd_bind emit_def check_dependencies_def ret_def
          raise_def del: step_commands.simps)
next
  case (Inr ok)
  then have ok by (rule snd_body_True)
  have "\<forall>c \<in> set (step_commands cfg DepCheck). exits_zero w c"
    using snd_body_ok [of w cfg] Inr by blast
  then show ?thesis
    using Inr \<open>ok\<close>
    by (simp add: dependency_step_def snd_bind emit_def check_dependencies_def ret_def raise_def
          del: step_commands.simps)
qed

lemma fst_body:
  "fst (check_dependencies_body w) =
     Spawn [''node'', ''--version''] None None
     # (case snd (subprocess_run w [''node'', ''--version'']) of
          Inl e \<Rightarrow> []
        | Inr a \<Rightarrow>
            Spawn [''npm'', ''--version''] None None
            # (case snd (subprocess_run w [''npm'', ''--version'']) of
                 Inl e \<Rightarrow> []
               | Inr b \<Rightarrow>
                   if a \<noteq> 0 \<or> b \<noteq> 0 then []
                   else fst (check_globals w [''next'', ''create-next-app'', ''typescript''])))"
  by (simp add: check_dependencies_body_def fst_bind snd_bind fst_subprocess_run ret_def raise_def
        del: check_globals.simps split: sum.splits)

lemma spawns_body:
  "set (spawns (fst (check_dependencies_body w))) \<subseteq> set (step_commands cfg DepCheck)"
proof -
  have g: "set (spawns (fst (check_globals w [''next'', ''create-next-app'', ''typescript''])))
      \<subseteq> set (step_commands cfg DepCheck)"
  proof -
    have "(\<lambda>pkg. [''npm'', ''list'', ''-g'', pkg]) ` set [''next'', ''create-next-app'', ''typescript'']
        \<subseteq> set (step_commands cfg DepCheck)"
      by simp
    then show ?thesis
      by (rule order_trans [OF spawns_check_globals])
  qed
  have n: "[''node'', ''--version''] \<in> set (step_commands cfg DepCheck)"
    "[''npm'', ''--version''] \<in> set (step_commands cfg DepCheck)"
    by simp_all
  have "set (spawns (fst (check_dependencies_body w)))
      \<subseteq> {[''node'', ''--version''], [''npm'', ''--version'']}
        \<union> set (spawns (fst (check_globals w [''next'', ''create-next-app'', ''typescript''])))"
    by (simp add: fst_body subset_insertI2 del: check_globals.simps split: sum.splits)
  with g n show ?thesis
    by blast
qed

lemma spawns_dependency_step:
  "spawns (fst (dependency_step w)) = spawns (fst (check_dependencies_body w))"
  by (simp add: dependency_step_def fst_bind emit_def check_dependencies_def spawns_append
        ret_def raise_def split: sum.splits halt.splits)

lemma finishes_append: "finishes (xs @ ys) = finishes xs @ finishes ys"
  by (induction xs rule: finishes.induct) auto

lemma results_append: "results (xs @ ys) = results xs @ results ys"
  by (induction xs rule: results.induct) auto

lemma results_tagged: "results (map (Pair s) evs) = finishes evs"
  by (induction evs rule: finishes.induct) auto

lemma finishes_stream_output: "finishes (stream_output rs) = []"
  by (induction rs) auto

lemma finishes_scaffold_stream: "finishes (scaffold_stream rs) = []"
  by (induction rs) auto

lemma finishes_respond: "finishes (fst (respond opn table line)) = []"
  by (induction table) auto

lemma finishes_handle_line: "finishes (fst (handle_line opn table buffer r)) = []"
  by (simp add: handle_line_def Let_def fst_bind log_message_def emit_def ret_def
        finishes_respond split: sum.splits)

lemma finishes_interact: "finishes (fst (interact p table a buffer rs)) = []"
proof (induction rs arbitrary: a buffer)
  case Nil
  then show ?case by simp
next
  case (Cons r rest)
  show ?case
    using finishes_handle_line [of "still_open p a" table buffer r] Cons.IH
    by (simp add: finishes_append split: sum.splits prod.splits)
qed

lemma finishes_after_loop: "finishes (fst (after_loop d p)) = []"
  by (simp add: fst_after_loop split: ending.splits option.splits)

lemma finishes_run_command: "finishes (fst (run_command w c cwd d env)) = []"
  by (simp add: fst_run_command finishes_append finishes_stream_output finishes_after_loop
        split: spawned.splits)

lemma finishes_run_command_with_input:
  "finishes (fst (run_command_with_input w c cwd d responses env)) = []"
  by (simp add: fst_run_command_with_input finishes_append finishes_interact
        finishes_after_loop split: spawned.splits sum.splits)

lemma finishes_guarded:
  "finishes (fst (if flag then bind (emit (Progress m)) (\<lambda>_. discard (run_command w c cwd d env))
                  else ret ())) = []"
  by (simp add: fst_bind snd_bind emit_def ret_def fst_discard finishes_append finishes_run_command)

lemma finishes_scaffold: "finishes (fst (scaffold cfg w dir)) = []"
  by (simp add: scaffold_def fst_bind snd_bind emit_def log_message_def popen_def ret_def
        raise_def block_def loop_end_def stderr_read_def finishes_append
        finishes_scaffold_stream split: spawned.splits ending.splits option.splits)

lemma finishes_shadcn: "finishes (fst (shadcn_step cfg w dir)) = []"
  by (simp add: shadcn_step_def setup_shadcn_and_utilities_def setup_shadcn_body_def fst_bind
        snd_bind emit_def log_message_def finishes_append finishes_run_command
        finishes_run_command_with_input split: sum.splits halt.splits)

lemma finishes_features: "finishes (fst (features_step cfg dir)) = []"
  by (simp add: features_step_def fst_bind emit_def ret_def install_additional_features_def raise_def)

lemma finishes_dev_server: "finishes (fst (dev_server_step cfg w dir)) = []"
proof -
  have wr: "\<And>en rs. finishes (fst (wait_ready w en rs)) = []"
  proof -
    fix en rs show "finishes (fst (wait_ready w en rs)) = []"
      by (induction rs) (auto split: sum.splits ending.splits)
  qed
  have an: "\<And>r. finishes (fst (announce_ready cfg r)) = []"
    by (simp add: announce_ready_def ret_def fst_bind log_message_def emit_def split: option.splits)
  show ?thesis
    by (simp add: dev_server_step_def start_dev_server_def fst_bind snd_bind emit_def ret_def
          log_message_def popen_def finishes_append wr an split: spawned.splits sum.splits)
qed

lemma finishes_dependency: "finishes (fst (dependency_step w)) = []"
proof -
  have g: "\<And>pkgs. finishes (fst (check_globals w pkgs)) = []"
  proof -
    fix pkgs show "finishes (fst (check_globals w pkgs)) = []"
      by (induction pkgs)
         (auto simp: ret_def raise_def fst_bind fst_subprocess_run finishes_append split: sum.splits)
  qed
  have b: "finishes (fst (check_dependencies_body w)) = []"
    by (simp add: fst_body g del: check_globals.simps split: sum.splits)
  show ?thesis
    by (simp add: dependency_step_def fst_bind emit_def check_dependencies_def finishes_append b
          ret_def raise_def split: sum.splits halt.splits)
qed

lemma plan_finishes: "(s, a) \<in> set (plan cfg w) \<Longrightarrow> finishes (fst a) = []"
  by (auto simp: plan_def Let_def finishes_dependency finishes_scaffold finishes_features
        finishes_shadcn finishes_dev_server git_step_def build_step_def editor_step_def
        finishes_guarded)

lemma plan_spawns: "(s, a) \<in> set (plan cfg w) \<Longrightarrow> set (spawns (fst a)) \<subseteq> set (step_commands cfg s)"
proof -
  assume m: "(s, a) \<in> set (plan cfg w)"
  have d: "set (spawns (fst (dependency_step w))) \<subseteq> set (step_commands cfg DepCheck)"
    using spawns_body [of w cfg] by (simp only: spawns_dependency_step)
  have sh: "\<And>dir. set (spawns (fst (shadcn_step cfg w dir))) \<subseteq> set (step_commands cfg Shadcn)"
    by (auto simp: spawns_shadcn_step spawns_shadcn_body split: sum.splits)
  from m consider "s = DepCheck" "a = dependency_step w"
    | dir where "s = Scaffold" "a = scaffold cfg w dir"
    | dir where "s = Features" "a = features_step cfg dir"
    | dir where "s = Shadcn" "a = shadcn_step cfg w dir"
    | dir where "s = GitInit" "a = git_step cfg w dir"
    | dir where "s = BuildStep" "a = build_step cfg w dir"
    | dir where "s = Editor" "a = editor_step cfg w dir"
    | dir where "s = DevServer" "a = dev_server_step cfg w dir"
    by (auto simp: plan_def Let_def)
  then show ?thesis
  proof cases
    case 1 then show ?thesis using d by simp
  next
    case 2 then show ?thesis by (simp add: spawns_scaffold)
  next
    case 3 then show ?thesis by (simp add: spawns_features)
  next
    case 4 then show ?thesis using sh by simp
  next
    case 5 then show ?thesis by (auto simp: git_step_def guarded_spawns)
  next
    case 6 then show ?thesis by (auto simp: build_step_def guarded_spawns)
  next
    case 7 then show ?thesis by (auto simp: editor_step_def guarded_spawns)
  next
    case 8 then show ?thesis by (auto simp: spawns_dev_server)
  qed
qed

lemma commands_mem: "(s, c) \<in> set (commands tr) \<Longrightarrow> \<exists>cwd env. (s, Spawn c cwd env) \<in> set tr"
  by (induction tr rule: commands.induct) auto

lemma body_commands:
  "(s, c) \<in> set (commands (fst (run_body cfg w))) \<Longrightarrow> c \<in> set (step_commands cfg s)"
proof -
  assume "(s, c) \<in> set (commands (fst (run_body cfg w)))"
  from commands_mem [OF this] obtain cwd env where
    "(s, Spawn c cwd env) \<in> set (fst (exec (plan cfg w)))"
    by (auto simp: run_body_exec)
  from exec_tags [OF this] obtain a where a: "(s, a) \<in> set (plan cfg w)" "Spawn c cwd env \<in> set (fst a)"
    by blast
  from mem_spawns [OF a(2)] plan_spawns [OF a(1)] show ?thesis by blast
qed

lemma commands_run: "commands (run cfg w) = commands (fst (run_body cfg w))"
  by (simp add: run_def commands_append split: sum.splits halt.splits)

section \<open>Sequencer: the order of the steps\<close>

text \<open>
  Claim C1. For every configuration and every behaviour of the child processes, the
  events of a run come in the order of the steps: dependency check, scaffold, feature
  installs, component-library init, git init, build, editor launch, dev server, and the
  final signals last; no event of an earlier step follows an event of a later one. Every
  command the run starts is one of the commands of the step that starts it, so the
  scaffold command precedes the component-library commands, which precede \<open>git init\<close>,
  \<open>npm run build\<close>, \<open>code .\<close> and \<open>npm run dev\<close>.
\<close>

theorem step_order_fixed:
  "sorted (map (\<lambda>x. step_no (fst x)) (run cfg w))
   \<and> (\<forall>(s, c) \<in> set (commands (run cfg w)). c \<in> set (step_commands cfg s))"
  using run_sorted [of cfg w] body_commands [of _ _ cfg w]
  by (auto simp: commands_run)

section \<open>Runs in which every step succeeds\<close>

lemma exec_all_ok:
  "\<forall>x \<in> set xs. snd (snd x) = Inr () \<Longrightarrow>
   fst (exec xs) = concat (map (\<lambda>x. map (Pair (fst x)) (fst (snd x))) xs) \<and> snd (exec xs) = Inr ()"
proof (induction xs)
  case Nil
  then show ?case by (simp add: ret_def)
next
  case (Cons x rest)
  obtain t b where x: "x = (t, b)" by (cases x)
  with Cons show ?case
    by (simp add: fst_exec_Cons snd_exec_Cons del: exec.simps)
qed

lemma snd_features:
  "snd (features_step cfg dir) =
     (if any_feature cfg then snd (install_additional_features dir :: (event, unit) outcome)
      else Inr ())"
  by (simp add: features_step_def snd_bind emit_def ret_def)

lemma spawns_dependency_ok:
  assumes "\<forall>c \<in> set (step_commands cfg DepCheck). exits_zero w c"
  shows "spawns (fst (dependency_step w)) = step_commands cfg DepCheck"
proof -
  have g: "fst (check_globals w [''next'', ''create-next-app'', ''typescript'']) =
      map (\<lambda>pkg. Spawn [''npm'', ''list'', ''-g'', pkg] None None)
        [''next'', ''create-next-app'', ''typescript'']"
    using assms by (intro spawns_check_globals_ok) simp
  have n: "snd (subprocess_run w [''node'', ''--version'']) = Inr 0"
    "snd (subprocess_run w [''npm'', ''--version'']) = Inr 0"
    using assms by (simp_all add: exits_zero_run)
  show ?thesis
    unfolding spawns_dependency_step fst_body g n by simp
qed

lemma snd_shadcn_ok:
  assumes "\<forall>c \<in> set (step_commands cfg Shadcn). exits_zero w c"
    and "takes_answers w [''npx'', ''shadcn@latest'', ''init''] (shadcn_responses cfg)"
  shows "snd (shadcn_step cfg w dir) = Inr ()"
    and "spawns (fst (shadcn_step cfg w dir)) = step_commands cfg Shadcn"
proof -
  have a: "snd (run_command w ([''npm'', ''install'', ''--save-dev''] @ base_deps) (Some dir)
                  ''Installing dependencies'' None) = Inr 0"
    using assms(1)
    by (auto simp: snd_run_command snd_after_loop exits_zero_def split: spawned.splits)
  have b: "snd (run_command_with_input w [''npx'', ''shadcn@latest'', ''init''] (Some dir)
                       ''Initializing shadcn/ui'' (shadcn_responses cfg)
                       (Some [(''NPM_CONFIG_LEGACY_PEER_DEPS'', ''true'')])) = Inr 0"
    using assms
    by (auto simp: snd_run_command_with_input snd_after_loop exits_zero_def takes_answers_def
          interact_open split: spawned.splits)
  show "snd (shadcn_step cfg w dir) = Inr ()"
    unfolding snd_shadcn_step snd_shadcn_body a b by simp
  show "spawns (fst (shadcn_step cfg w dir)) = step_commands cfg Shadcn"
    unfolding spawns_shadcn_step spawns_shadcn_body a by simp
qed

lemma snd_scaffold_ok:
  "exits_zero w (create_command cfg) \<Longrightarrow> snd (scaffold cfg w dir) = Inr ()"
  by (auto simp: snd_scaffold exits_zero_def split: spawned.splits)

lemma results_mem: "(ok, m) \<in> set (results tr) \<Longrightarrow> \<exists>s. (s, Finished ok m) \<in> set tr"
  by (induction tr rule: results.induct) auto

lemma mem_finishes: "Finished ok m \<in> set evs \<Longrightarrow> (ok, m) \<in> set (finishes evs)"
  by (induction evs rule: finishes.induct) auto

lemma body_results: "results (fst (run_body cfg w)) = []"
proof (rule ccontr)
  assume "results (fst (run_body cfg w)) \<noteq> []"
  then obtain ok m where "(ok, m) \<in> set (results (fst (run_body cfg w)))"
    by (cases "results (fst (run_body cfg w))") auto
  from results_mem [OF this] obtain s where "(s, Finished ok m) \<in> set (fst (exec (plan cfg w)))"
    by (auto simp: run_body_exec)
  from exec_tags [OF this] obtain a where a: "(s, a) \<in> set (plan cfg w)" "Finished ok m \<in> set (fst a)"
    by blast
  from mem_finishes [OF a(2)] plan_finishes [OF a(1)] show False by simp
qed

lemma results_run:
  "results (run cfg w) =
     (case snd (run_body cfg w) of
        Inr u \<Rightarrow> [(True, ''Project created successfully!'')]
      | Inl (Raised e) \<Rightarrow> [(False, ''Error: '' @ str_exn e)]
      | Inl Blocked \<Rightarrow> [])"
  by (simp add: run_def results_append body_results split: sum.splits halt.splits)

lemma last_run:
  "snd (run_body cfg w) \<noteq> Inl Blocked \<Longrightarrow>
   last (run cfg w) =
     (case snd (run_body cfg w) of
        Inr u \<Rightarrow> (Report, Finished True ''Project created successfully!'')
      | Inl h \<Rightarrow> (Report, Finished False (''Error: '' @ str_exn (case h of Raised e \<Rightarrow> e))))"
  by (simp add: run_def split: sum.splits halt.splits)

lemma run_tags:
  "(s, e) \<in> set (run cfg w) \<Longrightarrow>
   s = Report \<or> (\<exists>a. (s, a) \<in> set (plan cfg w) \<and> e \<in> set (fst a))"
proof -
  assume "(s, e) \<in> set (run cfg w)"
  then have "s = Report \<or> (s, e) \<in> set (fst (exec (plan cfg w)))"
    by (auto simp: run_def run_body_exec split: sum.splits halt.splits)
  with exec_tags [of s e "plan cfg w"] show ?thesis by blast
qed

lemma minimal_config_run:
  assumes "\<not> any_feature cfg" and "\<not> init_git cfg" and "\<not> build_project cfg"
    and "\<not> open_vscode cfg" and "\<not> start_dev cfg"
  shows "fst ` set (run cfg w) \<subseteq> {DepCheck, Scaffold, Shadcn, Report}
    \<and> ((\<forall>c \<in> set (step_commands cfg DepCheck @ step_commands cfg Scaffold
                    @ step_commands cfg Shadcn). exits_zero w c)
        \<and> takes_answers w [''npx'', ''shadcn@latest'', ''init''] (shadcn_responses cfg) \<longrightarrow>
        commands (run cfg w) =
          map (Pair DepCheck) (step_commands cfg DepCheck)
          @ map (Pair Scaffold) (step_commands cfg Scaffold)
          @ map (Pair Shadcn) (step_commands cfg Shadcn)
        \<and> results (run cfg w) = [(True, ''Project created successfully!'')])"
proof
  let ?dir = "path_join w (project_path cfg) (project_name cfg)"
  have off: "features_step cfg ?dir = ([], Inr ())" "git_step cfg w ?dir = ([], Inr ())"
    "build_step cfg w ?dir = ([], Inr ())" "editor_step cfg w ?dir = ([], Inr ())"
    "dev_server_step cfg w ?dir = ([], Inr ())"
    using assms
    by (simp_all add: features_step_def git_step_def build_step_def editor_step_def
          dev_server_step_def ret_def)
  show "fst ` set (run cfg w) \<subseteq> {DepCheck, Scaffold, Shadcn, Report}"
  proof
    fix s assume "s \<in> fst ` set (run cfg w)"
    then obtain e where "(s, e) \<in> set (run cfg w)" by auto
    from run_tags [OF this] show "s \<in> {DepCheck, Scaffold, Shadcn, Report}"
      by (auto simp: plan_def Let_def off)
  qed
  show "(\<forall>c \<in> set (step_commands cfg DepCheck @ step_commands cfg Scaffold
                    @ step_commands cfg Shadcn). exits_zero w c)
        \<and> takes_answers w [''npx'', ''shadcn@latest'', ''init''] (shadcn_responses cfg) \<longrightarrow>
        commands (run cfg w) =
          map (Pair DepCheck) (step_commands cfg DepCheck)
          @ map (Pair Scaffold) (step_commands cfg Scaffold)
          @ map (Pair Shadcn) (step_commands cfg Shadcn)
        \<and> results (run cfg w) = [(True, ''Project created successfully!'')]"
  proof
    assume ok: "(\<forall>c \<in> set (step_commands cfg DepCheck @ step_commands cfg Scaffold
                    @ step_commands cfg Shadcn). exits_zero w c)
        \<and> takes_answers w [''npx'', ''shadcn@latest'', ''init''] (shadcn_responses cfg)"
    then have okd: "\<forall>c \<in> set (step_commands cfg DepCheck). exits_zero w c"
      and oks: "exits_zero w (create_command cfg)"
      and okh: "\<forall>c \<in> set (step_commands cfg Shadcn). exits_zero w c"
      and oka: "takes_answers w [''npx'', ''shadcn@latest'', ''init''] (shadcn_responses cfg)"
      by simp_all
    have r: "snd (dependency_step w) = Inr ()" "snd (scaffold cfg w ?dir) = Inr ()"
      "snd (features_step cfg ?dir) = Inr ()" "snd (shadcn_step cfg w ?dir) = Inr ()"
      "snd (git_step cfg w ?dir) = Inr ()" "snd (build_step cfg w ?dir) = Inr ()"
      "snd (editor_step cfg w ?dir) = Inr ()" "snd (dev_server_step cfg w ?dir) = Inr ()"
      using okd snd_dependency_step [of w cfg] snd_scaffold_ok [OF oks] snd_shadcn_ok(1) [OF okh oka]
      by (simp_all add: off del: step_commands.simps)
    have all: "\<forall>x \<in> set (plan cfg w). snd (snd x) = Inr ()"
      using r by (simp add: plan_def Let_def)
    have body: "fst (run_body cfg w) =
        concat (map (\<lambda>x. map (Pair (fst x)) (fst (snd x))) (plan cfg w))"
      "snd (run_body cfg w) = Inr ()"
      using exec_all_ok [OF all] by (simp_all add: run_body_exec)
    have "commands (fst (run_body cfg w)) =
        map (Pair DepCheck) (spawns (fst (dependency_step w)))
        @ map (Pair Scaffold) (spawns (fst (scaffold cfg w ?dir)))
        @ map (Pair Shadcn) (spawns (fst (shadcn_step cfg w ?dir)))"
      unfolding body
      by (simp add: plan_def Let_def off commands_append commands_tagged del: step_commands.simps)
    then have "commands (run cfg w) =
          map (Pair DepCheck) (step_commands cfg DepCheck)
          @ map (Pair Scaffold) (step_commands cfg Scaffold)
          @ map (Pair Shadcn) (step_commands cfg Shadcn)"
      using spawns_dependency_ok [OF okd] snd_shadcn_ok(2) [OF okh oka]
      by (simp add: commands_run spawns_scaffold del: step_commands.simps(1,4))
    moreover have "results (run cfg w) = [(True, ''Project created successfully!'')]"
      by (simp add: results_run body)
    ultimately show "commands (run cfg w) =
          map (Pair DepCheck) (step_commands cfg DepCheck)
          @ map (Pair Scaffold) (step_commands cfg Scaffold)
          @ map (Pair Shadcn) (step_commands cfg Shadcn)
        \<and> results (run cfg w) = [(True, ''Project created successfully!'')]"
      by blast
  qed
qed

lemma sample_run:
  "commands (run sample_cfg all_quiet) =
     [(DepCheck, [''node'', ''--version'']), (DepCheck, [''npm'', ''--version'']),
      (DepCheck, [''npm'', ''list'', ''-g'', ''next'']),
      (DepCheck, [''npm'', ''list'', ''-g'', ''create-next-app'']),
      (DepCheck, [''npm'', ''list'', ''-g'', ''typescript'']),
      (Scaffold, [''npx'', ''--yes'', ''create-next-app@latest'', ''app'', ''--ts'', ''--tailwind'',
                  ''--eslint'', ''--src-dir'', ''--app'', ''--import-alias'', ''--use-npm'',
                  ''--import-alias'', ''@/*'']),
      (Shadcn, [''npm'', ''install'', ''--save-dev'', ''@radix-ui/react-icons'',
                ''@radix-ui/react-slot'', ''class-variance-authority'', ''clsx'',
                ''tailwind-merge'', ''lucide-react'', ''tailwindcss-animate'']),
      (Shadcn, [''npx'', ''shadcn@latest'', ''init''])]
   \<and> results (run sample_cfg all_quiet) = [(True, ''Project created successfully!'')]"
  using minimal_config_run [of sample_cfg all_quiet]
  by (simp add: sample_cfg_def any_feature_def all_quiet_def exits_zero_def takes_answers_def stdin_open_def quiet_def
        create_command_def base_deps_def)

section \<open>Sequencer: the minimal configuration\<close>





text \<open>The witness of claim C1 is the run of the sample configuration in a world where
  every command succeeds.\<close>

theorem step_order_fixed_witness:
  "sorted (map (\<lambda>x. step_no (fst x)) (run sample_cfg all_quiet))
   \<and> (Shadcn, [''npx'', ''shadcn@latest'', ''init'']) \<in> set (commands (run sample_cfg all_quiet))
   \<and> [''npx'', ''shadcn@latest'', ''init''] \<in> set (step_commands sample_cfg Shadcn)"
  using step_order_fixed [of sample_cfg all_quiet] sample_run
  by simp

section \<open>Steps whose child fails\<close>

lemma plan_cases:
  assumes "(s, a) \<in> set (plan cfg w)"
  obtains "s = DepCheck" "a = dependency_step w"
    | dir where "s = Scaffold" "a = scaffold cfg w dir"
    | dir where "s = Features" "a = features_step cfg dir"
    | dir where "s = Shadcn" "a = shadcn_step cfg w dir"
    | dir where "s = GitInit" "a = git_step cfg w dir"
    | dir where "s = BuildStep" "a = build_step cfg w dir"
    | dir where "s = Editor" "a = editor_step cfg w dir"
    | dir where "s = DevServer" "a = dev_server_step cfg w dir"
  using assms by (auto simp: plan_def Let_def)

lemma guarded_failure:
  assumes "c' \<in> set (spawns (fst (if flag then bind (emit (Progress m))
                 (\<lambda>_. discard (run_command w c cwd d env)) else ret ())))"
    and "spawn w c' = Child p" and "ending p = Ends" and "comm_error p = None"
    and "returncode p \<noteq> 0"
  shows "snd (if flag then bind (emit (Progress m)) (\<lambda>_. discard (run_command w c cwd d env))
              else ret ())
         = Inl (Raised (Exception (d @ '' failed: '' @ err_text p)))
     \<and> spawns (fst (if flag then bind (emit (Progress m))
                 (\<lambda>_. discard (run_command w c cwd d env)) else ret ())) = [c']"
proof -
  from assms(1) have f: "flag" and c: "c' = c"
    unfolding guarded_spawns by (auto split: if_splits)
  show ?thesis
    unfolding guarded_spawns guarded_result using f c assms(2,3,4,5)
    by (simp add: snd_run_command snd_after_loop)
qed

lemma shadcn_failure:
  assumes "c \<in> set (spawns (fst (shadcn_step cfg w dir)))"
    and "spawn w c = Child p" and "ending p = Ends" and "comm_error p = None"
    and "returncode p \<noteq> 0"
    and "c = [''npx'', ''shadcn@latest'', ''init'']
         \<longrightarrow> stdin_open p 0 (shadcn_responses cfg) (reads p)"
  shows "snd (shadcn_step cfg w dir)
           = Inl (Raised (Exception (description_of Shadcn c @ '' failed: '' @ err_text p)))
     \<and> spawns (fst (shadcn_step cfg w dir)) \<noteq> []
     \<and> last (spawns (fst (shadcn_step cfg w dir))) = c"
proof (cases "c = [''npm'', ''install'', ''--save-dev''] @ base_deps")
  case True
  have a: "snd (run_command w ([''npm'', ''install'', ''--save-dev''] @ base_deps) (Some dir)
                  ''Installing dependencies'' None)
      = Inl (Raised (Exception (''Installing dependencies failed: '' @ err_text p)))"
    using assms(2,3,4,5) True by (simp add: snd_run_command snd_after_loop)
  have d: "description_of Shadcn c = ''Installing dependencies''"
    using True by simp
  show ?thesis
    unfolding snd_shadcn_step spawns_shadcn_step snd_shadcn_body spawns_shadcn_body a d
    using True by simp
next
  case False
  show ?thesis
  proof (cases "snd (run_command w ([''npm'', ''install'', ''--save-dev''] @ base_deps) (Some dir)
                  ''Installing dependencies'' None)")
    case (Inl e)
    with assms(1) False show ?thesis
      unfolding spawns_shadcn_step spawns_shadcn_body by simp
  next
    case a: (Inr rc)
    with assms(1) False have c: "c = [''npx'', ''shadcn@latest'', ''init'']"
      unfolding spawns_shadcn_step spawns_shadcn_body by simp
    have b: "snd (run_command_with_input w [''npx'', ''shadcn@latest'', ''init''] (Some dir)
                       ''Initializing shadcn/ui'' (shadcn_responses cfg)
                       (Some [(''NPM_CONFIG_LEGACY_PEER_DEPS'', ''true'')]))
        = Inl (Raised (Exception (''Initializing shadcn/ui failed: '' @ err_text p)))"
      using assms(2,3,4,5,6) c
      by (simp add: snd_run_command_with_input snd_after_loop interact_open)
    have d: "description_of Shadcn c = ''Initializing shadcn/ui''"
      using c by simp
    show ?thesis
      unfolding snd_shadcn_step spawns_shadcn_step snd_shadcn_body spawns_shadcn_body a b d
      using c by simp
  qed
qed

lemma step_failure:
  assumes "(s, a) \<in> set (plan cfg w)" and "Spawn c cwd env \<in> set (fst a)"
    and "spawn w c = Child p" and "ending p = Ends" and "comm_error p = None"
    and "returncode p \<noteq> 0" and "s \<noteq> DevServer"
    and "c = [''npx'', ''shadcn@latest'', ''init'']
         \<longrightarrow> stdin_open p 0 (shadcn_responses cfg) (reads p)"
    and "s = DepCheck \<longrightarrow> (\<forall>c' \<in> set (step_commands cfg DepCheck). \<not> stalls w c')"
  shows "snd a = Inl (Raised (Exception (failure_text s c p)))
         \<and> (s \<noteq> DepCheck \<longrightarrow> spawns (fst a) \<noteq> [] \<and> last (spawns (fst a)) = c)"
proof -
  have c: "c \<in> set (spawns (fst a))"
    using assms(2) by (rule mem_spawns)
  from assms(1) show ?thesis
  proof (cases rule: plan_cases)
    case 1
    have "c \<in> set (step_commands cfg DepCheck)"
      using c plan_spawns [OF assms(1)] 1 by blast
    moreover have "\<not> exits_zero w c"
      using assms(3,6) by (simp add: exits_zero_def)
    ultimately have n: "\<not> (\<forall>c \<in> set (step_commands cfg DepCheck). exits_zero w c)"
      by blast
    have b: "snd (check_dependencies_body w) \<noteq> Inl Blocked"
      using body_blocked [of w cfg] assms(9) 1 by blast
    show ?thesis
      using 1 n b snd_dependency_step [of w cfg] by (simp add: failure_text_def)
  next
    case (2 dir)
    with c have "c = create_command cfg" by (simp add: spawns_scaffold)
    then show ?thesis
      using 2 assms(3,4,5,6) by (simp add: snd_scaffold spawns_scaffold failure_text_def)
  next
    case (3 dir)
    with c show ?thesis by (simp add: spawns_features)
  next
    case (4 dir)
    then show ?thesis
      using shadcn_failure [of c cfg w dir p] c assms(3,4,5,6,8)
      by (simp add: failure_text_def)
  next
    case (5 dir)
    then show ?thesis
      using c assms(3,4,5,6)
        guarded_failure [of c "init_git cfg" "''Initializing Git repository...''" w
          "[''git'', ''init'']" "Some dir" "''Initializing Git''" None p]
      by (simp add: git_step_def failure_text_def)
  next
    case (6 dir)
    then show ?thesis
      using c assms(3,4,5,6)
        guarded_failure [of c "build_project cfg" "''Building project...''" w
          "[''npm'', ''run'', ''build'']" "Some dir" "''Building project''" None p]
      by (simp add: build_step_def failure_text_def)
  next
    case (7 dir)
    then show ?thesis
      using c assms(3,4,5,6)
        guarded_failure [of c "open_vscode cfg" "''Opening in VS Code...''" w
          "[''code'', ''.'']" "Some dir" "''Opening VS Code''" None p]
      by (simp add: editor_step_def failure_text_def)
  next
    case (8 dir)
    with assms(7) show ?thesis by simp
  qed
qed

lemma run_spawn_in_body:
  "(s, Spawn c cwd env) \<in> set (run cfg w) \<Longrightarrow> (s, Spawn c cwd env) \<in> set (fst (exec (plan cfg w)))"
  by (auto simp: run_def run_body_exec split: sum.splits halt.splits)

lemma blocks_tags:
  "x \<in> set (concat (map (\<lambda>x. map (Pair (fst x)) (fst (snd x))) pre)) \<Longrightarrow> fst x \<in> fst ` set pre"
  by force

lemma run_aborted:
  assumes d: "plan cfg w = pre @ (s, a) # post"
    and r: "(s, e) \<in> set (fst (exec (plan cfg w)))"
    and f: "snd a = Inl (Raised err)"
    and body: "fst (exec (plan cfg w)) =
         concat (map (\<lambda>x. map (Pair (fst x)) (fst (snd x))) pre) @ map (Pair s) (fst a)
         @ (case snd a of Inl err \<Rightarrow> [] | Inr u \<Rightarrow> fst (exec post))"
      "snd (exec (plan cfg w)) = (case snd a of Inl err \<Rightarrow> Inl err | Inr u \<Rightarrow> snd (exec post))"
  shows "results (run cfg w) = [(False, ''Error: '' @ str_exn err)]"
    and "last (run cfg w) = (Report, Finished False (''Error: '' @ str_exn err))"
    and "\<forall>x \<in> set (run cfg w). step_no (fst x) \<le> step_no s \<or> fst x = Report"
    and "spawns (fst a) \<noteq> [] \<Longrightarrow> last (commands (run cfg w)) = (s, last (spawns (fst a)))"
proof -
  have b1: "fst (run_body cfg w) =
      concat (map (\<lambda>x. map (Pair (fst x)) (fst (snd x))) pre) @ map (Pair s) (fst a)"
    and b2: "snd (run_body cfg w) = Inl (Raised err)"
    using body f by (simp_all add: run_body_exec)
  show "results (run cfg w) = [(False, ''Error: '' @ str_exn err)]"
    by (simp add: results_run b2)
  show "last (run cfg w) = (Report, Finished False (''Error: '' @ str_exn err))"
    by (simp add: last_run b2)
  have before: "\<forall>y \<in> set pre. step_no (fst y) < step_no s"
    using plan_sorted [of cfg w] unfolding d by (auto simp: sorted_wrt_append)
  have "\<forall>x \<in> set (fst (run_body cfg w)). step_no (fst x) \<le> step_no s"
  proof
    fix x assume "x \<in> set (fst (run_body cfg w))"
    then consider "x \<in> set (concat (map (\<lambda>x. map (Pair (fst x)) (fst (snd x))) pre))"
      | "x \<in> set (map (Pair s) (fst a))"
      unfolding b1 by auto
    then show "step_no (fst x) \<le> step_no s"
    proof cases
      case 1
      from blocks_tags [OF this] before show ?thesis by force
    next
      case 2
      then show ?thesis by auto
    qed
  qed
  then show "\<forall>x \<in> set (run cfg w). step_no (fst x) \<le> step_no s \<or> fst x = Report"
    by (auto simp: run_def b2)
  show "last (commands (run cfg w)) = (s, last (spawns (fst a)))" if "spawns (fst a) \<noteq> []"
    using that by (simp add: commands_run b1 commands_append commands_tagged last_map)
qed

lemma int_error_spawn: "int_error (w\<lparr>spawn := f\<rparr>) s = int_error w s"
  by (simp add: int_error_def)

lemma parse_port_spawn: "parse_port (w\<lparr>spawn := f\<rparr>) l = parse_port w l"
  by (simp add: parse_port_def int_error_spawn split: list.splits option.splits)

lemma wait_ready_spawn: "wait_ready (w\<lparr>spawn := f\<rparr>) en rs = wait_ready w en rs"
  by (induction rs) (simp_all add: parse_port_spawn)

lemma exit_code_unread:
  "start_dev_server cfg
     (w\<lparr>spawn := (spawn w)([''npm'', ''run'', ''dev''] := Child (q\<lparr>returncode := rc\<rparr>))\<rparr>) dir
   = start_dev_server cfg
       (w\<lparr>spawn := (spawn w)([''npm'', ''run'', ''dev''] := Child q)\<rparr>) dir"
  by (simp add: start_dev_server_def popen_def wait_ready_spawn bind_def log_message_def
        emit_def split: sum.splits)

section \<open>Sequencer: a failing child aborts the run\<close>

text \<open>
  Claim C2, amended. Let a child process started by one of the steps 1 to 7 run to its
  end (its output ends and decodes) and exit with a non-zero code; if it is the
  component-library init, let it have kept its standard input open for the answers to
  its prompts; if it belongs to the dependency check, let no command of the dependency
  check hang. Then the run reports exactly one result, a failure, as its last event, and
  no event of a later step occurs. For the scaffold, the component-library init, git
  init, the build and the editor launch the message is \<open>Error:\<close>, the description under
  which the source runs the failing command, \<open>failed:\<close> and the child's stderr text, and
  the failing command is the last command the run starts. For the dependency check the
  message is the fixed text about missing dependencies. Whatever the exit code of the
  dev-server child is, \<open>start_dev_server\<close> behaves the same: it never reads it.
\<close>

theorem child_failure_aborts:
  assumes "(s, Spawn c cwd env) \<in> set (run cfg w)"
    and "spawn w c = Child p" and "ending p = Ends" and "comm_error p = None"
    and "returncode p \<noteq> 0" and "s \<noteq> DevServer"
    and "c = [''npx'', ''shadcn@latest'', ''init'']
         \<longrightarrow> stdin_open p 0 (shadcn_responses cfg) (reads p)"
    and "s = DepCheck \<longrightarrow> (\<forall>c' \<in> set (step_commands cfg DepCheck). \<not> stalls w c')"
  shows "results (run cfg w) = [(False, ''Error: '' @ failure_text s c p)]
     \<and> last (run cfg w) = (Report, Finished False (''Error: '' @ failure_text s c p))
     \<and> (\<forall>x \<in> set (run cfg w). step_no (fst x) \<le> step_no s \<or> fst x = Report)
     \<and> (s \<noteq> DepCheck \<longrightarrow> last (commands (run cfg w)) = (s, c))
     \<and> start_dev_server cfg
         (w\<lparr>spawn := (spawn w)([''npm'', ''run'', ''dev''] := Child (q\<lparr>returncode := rc\<rparr>))\<rparr>) dir
       = start_dev_server cfg
           (w\<lparr>spawn := (spawn w)([''npm'', ''run'', ''dev''] := Child q)\<rparr>) dir"
proof -
  note r = run_spawn_in_body [OF assms(1)]
  from exec_reach [OF r] obtain pre a post where
    d: "plan cfg w = pre @ (s, a) # post" and e: "Spawn c cwd env \<in> set (fst a)"
    and body: "fst (exec (plan cfg w)) =
         concat (map (\<lambda>x. map (Pair (fst x)) (fst (snd x))) pre) @ map (Pair s) (fst a)
         @ (case snd a of Inl err \<Rightarrow> [] | Inr u \<Rightarrow> fst (exec post))"
      "snd (exec (plan cfg w)) = (case snd a of Inl err \<Rightarrow> Inl err | Inr u \<Rightarrow> snd (exec post))"
    by blast
  have mem: "(s, a) \<in> set (plan cfg w)"
    unfolding d by simp
  note sf = step_failure [OF mem e assms(2,3,4,5,6,7,8)]
  from sf have m: "snd a = Inl (Raised (Exception (failure_text s c p)))"
    by simp
  note ab = run_aborted [OF d r m body]
  have 3: "s \<noteq> DepCheck \<longrightarrow> last (commands (run cfg w)) = (s, c)"
  proof
    assume "s \<noteq> DepCheck"
    with sf have "spawns (fst a) \<noteq> []" "last (spawns (fst a)) = c" by simp_all
    with ab(4) show "last (commands (run cfg w)) = (s, c)" by simp
  qed
  from ab(1,2,3) 3 exit_code_unread [where cfg = cfg and w = w and q = q and rc = rc and dir = dir] show ?thesis
    by simp
qed

section \<open>Reaching a step\<close>

lemma exec_prefix_ok:
  "\<forall>x \<in> set pre. snd (snd x) = Inr () \<Longrightarrow>
   fst (exec (pre @ rest)) = concat (map (\<lambda>x. map (Pair (fst x)) (fst (snd x))) pre) @ fst (exec rest)
   \<and> snd (exec (pre @ rest)) = snd (exec rest)"
proof (induction pre)
  case Nil
  then show ?case by simp
next
  case (Cons x pre)
  obtain t b where x: "x = (t, b)" by (cases x)
  with Cons show ?case
    by (simp add: fst_exec_Cons snd_exec_Cons del: exec.simps)
qed

lemma reach_step:
  assumes "plan cfg w = pre @ (s, a) # post"
    and "\<forall>x \<in> set pre. snd (snd x) = Inr ()"
    and "e \<in> set (fst a)"
  shows "(s, e) \<in> set (run cfg w)"
proof -
  have "fst (exec (plan cfg w)) =
      concat (map (\<lambda>x. map (Pair (fst x)) (fst (snd x))) pre) @ fst (exec ((s, a) # post))"
    unfolding assms(1) using exec_prefix_ok [OF assms(2)] by blast
  then have "(s, e) \<in> set (fst (run_body cfg w))"
    using assms(3) by (simp add: run_body_exec fst_exec_Cons del: exec.simps)
  then show ?thesis
    by (auto simp: run_def split: sum.splits halt.splits)
qed

lemma first_steps_ok:
  assumes "\<not> any_feature cfg"
    and "\<forall>c \<in> set (step_commands cfg DepCheck @ step_commands cfg Scaffold
                    @ step_commands cfg Shadcn). exits_zero w c"
    and "takes_answers w [''npx'', ''shadcn@latest'', ''init''] (shadcn_responses cfg)"
  shows "snd (dependency_step w) = Inr ()" and "snd (scaffold cfg w dir) = Inr ()"
    and "snd (features_step cfg dir) = Inr ()" and "snd (shadcn_step cfg w dir) = Inr ()"
proof -
  note oka = assms(3)
  from assms(2) have okd: "\<forall>c \<in> set (step_commands cfg DepCheck). exits_zero w c"
    and oks: "exits_zero w (create_command cfg)"
    and okh: "\<forall>c \<in> set (step_commands cfg Shadcn). exits_zero w c"
    by simp_all
  show "snd (dependency_step w) = Inr ()"
    using okd snd_dependency_step [of w cfg] by (simp del: step_commands.simps)
  show "snd (scaffold cfg w dir) = Inr ()"
    using oks by (rule snd_scaffold_ok)
  show "snd (features_step cfg dir) = Inr ()"
    using assms(1) by (simp add: snd_features)
  show "snd (shadcn_step cfg w dir) = Inr ()"
    using okh oka by (rule snd_shadcn_ok(1))
qed

lemma git_step_reached:
  assumes "\<not> any_feature cfg"
    and "\<forall>c \<in> set (step_commands cfg DepCheck @ step_commands cfg Scaffold
                    @ step_commands cfg Shadcn). exits_zero w c"
    and "takes_answers w [''npx'', ''shadcn@latest'', ''init''] (shadcn_responses cfg)"
    and "init_git cfg"
  shows "(GitInit, Spawn [''git'', ''init'']
            (Some (path_join w (project_path cfg) (project_name cfg))) None) \<in> set (run cfg w)"
proof -
  let ?dir = "path_join w (project_path cfg) (project_name cfg)"
  have p: "plan cfg w =
      [(DepCheck, dependency_step w), (Scaffold, scaffold cfg w ?dir),
       (Features, features_step cfg ?dir), (Shadcn, shadcn_step cfg w ?dir)]
      @ (GitInit, git_step cfg w ?dir)
      # [(BuildStep, build_step cfg w ?dir), (Editor, editor_step cfg w ?dir),
         (DevServer, dev_server_step cfg w ?dir)]"
    by (simp add: plan_def Let_def)
  have pre: "\<forall>x \<in> set [(DepCheck, dependency_step w), (Scaffold, scaffold cfg w ?dir),
       (Features, features_step cfg ?dir), (Shadcn, shadcn_step cfg w ?dir)].
       snd (snd x) = Inr ()"
    using first_steps_ok [OF assms(1,2,3)] by simp
  have e: "Spawn [''git'', ''init''] (Some ?dir) None \<in> set (fst (git_step cfg w ?dir))"
    using assms(4) by (simp add: git_step_def fst_bind emit_def fst_discard fst_run_command)
  show ?thesis
    using reach_step [OF p pre e] .
qed

lemma dev_only_run:
  assumes "\<not> any_feature cfg"
    and "\<forall>c \<in> set (step_commands cfg DepCheck @ step_commands cfg Scaffold
                    @ step_commands cfg Shadcn). exits_zero w c"
    and "takes_answers w [''npx'', ''shadcn@latest'', ''init''] (shadcn_responses cfg)"
    and "\<not> init_git cfg" and "\<not> build_project cfg" and "\<not> open_vscode cfg" and "start_dev cfg"
  shows "(DevServer, Spawn [''npm'', ''run'', ''dev'']
            (Some (path_join w (project_path cfg) (project_name cfg))) None) \<in> set (run cfg w)"
    and "snd (run_body cfg w)
         = snd (start_dev_server cfg w (path_join w (project_path cfg) (project_name cfg)))"
proof -
  let ?dir = "path_join w (project_path cfg) (project_name cfg)"
  let ?pre = "[(DepCheck, dependency_step w), (Scaffold, scaffold cfg w ?dir),
       (Features, features_step cfg ?dir), (Shadcn, shadcn_step cfg w ?dir),
       (GitInit, git_step cfg w ?dir), (BuildStep, build_step cfg w ?dir),
       (Editor, editor_step cfg w ?dir)]"
  have p: "plan cfg w = ?pre @ (DevServer, dev_server_step cfg w ?dir) # []"
    by (simp add: plan_def Let_def)
  have off: "git_step cfg w ?dir = ([], Inr ())" "build_step cfg w ?dir = ([], Inr ())"
    "editor_step cfg w ?dir = ([], Inr ())"
    using assms(4,5,6) by (simp_all add: git_step_def build_step_def editor_step_def ret_def)
  have pre: "\<forall>x \<in> set ?pre. snd (snd x) = Inr ()"
    using first_steps_ok [OF assms(1,2,3)] by (simp add: off)
  have e: "Spawn [''npm'', ''run'', ''dev''] (Some ?dir) None
      \<in> set (fst (dev_server_step cfg w ?dir))"
    using assms(7)
    by (simp add: dev_server_step_def start_dev_server_def fst_bind emit_def log_message_def popen_def)
  show "(DevServer, Spawn [''npm'', ''run'', ''dev''] (Some ?dir) None) \<in> set (run cfg w)"
    using reach_step [OF p pre e] .
  have "snd (exec (plan cfg w)) = snd (exec [(DevServer, dev_server_step cfg w ?dir)])"
    unfolding p using exec_prefix_ok [OF pre] by blast
  also have "\<dots> = snd (dev_server_step cfg w ?dir)"
    by (simp add: snd_bind in_step_def ret_def split: sum.splits)
  also have "\<dots> = snd (start_dev_server cfg w ?dir)"
    using assms(7) by (simp add: dev_server_step_def snd_bind emit_def)
  finally show "snd (run_body cfg w) = snd (start_dev_server cfg w ?dir)"
    by (simp add: run_body_exec)
qed

lemma shadcn_init_reached:
  assumes "\<not> any_feature cfg"
    and "\<forall>c \<in> set (step_commands cfg DepCheck @ step_commands cfg Scaffold). exits_zero w c"
    and "exits_zero w ([''npm'', ''install'', ''--save-dev''] @ base_deps)"
  shows "(Shadcn, Spawn [''npx'', ''shadcn@latest'', ''init'']
            (Some (path_join w (project_path cfg) (project_name cfg)))
            (Some [(''NPM_CONFIG_LEGACY_PEER_DEPS'', ''true'')])) \<in> set (run cfg w)"
proof -
  let ?dir = "path_join w (project_path cfg) (project_name cfg)"
  have p: "plan cfg w =
      [(DepCheck, dependency_step w), (Scaffold, scaffold cfg w ?dir),
       (Features, features_step cfg ?dir)]
      @ (Shadcn, shadcn_step cfg w ?dir)
      # [(GitInit, git_step cfg w ?dir), (BuildStep, build_step cfg w ?dir),
         (Editor, editor_step cfg w ?dir), (DevServer, dev_server_step cfg w ?dir)]"
    by (simp add: plan_def Let_def)
  from assms(2) have okd: "\<forall>c \<in> set (step_commands cfg DepCheck). exits_zero w c"
    and oks: "exits_zero w (create_command cfg)"
    by simp_all
  have "snd (dependency_step w) = Inr ()"
    using okd snd_dependency_step [of w cfg] by (simp del: step_commands.simps)
  moreover have "snd (scaffold cfg w ?dir) = Inr ()"
    using oks by (rule snd_scaffold_ok)
  moreover have "snd (features_step cfg ?dir) = Inr ()"
    using assms(1) by (simp add: snd_features)
  ultimately have pre: "\<forall>x \<in> set [(DepCheck, dependency_step w),
       (Scaffold, scaffold cfg w ?dir), (Features, features_step cfg ?dir)].
       snd (snd x) = Inr ()"
    by simp
  have a: "snd (run_command w ([''npm'', ''install'', ''--save-dev''] @ base_deps) (Some ?dir)
                  ''Installing dependencies'' None) = Inr 0"
    using assms(3) by (auto simp: snd_run_command snd_after_loop exits_zero_def split: spawned.splits)
  have e: "Spawn [''npx'', ''shadcn@latest'', ''init''] (Some ?dir)
             (Some [(''NPM_CONFIG_LEGACY_PEER_DEPS'', ''true'')])
      \<in> set (fst (shadcn_step cfg w ?dir))"
    using a
    by (simp add: shadcn_step_def setup_shadcn_and_utilities_def setup_shadcn_body_def fst_bind
          snd_bind emit_def log_message_def fst_run_command_with_input
          split: sum.splits halt.splits)
  show ?thesis
    using reach_step [OF p pre e] .
qed

section \<open>Sequencer: the dev server's exit code\<close>

text \<open>
  Claim C2, as stated: a non-zero exit code of any step's child process makes the run
  report a failure. It fails for the dev-server step: \<open>start_dev_server\<close> never reads the
  exit code of \<open>npm run dev\<close>. With a child that prints one line and exits with code 1,
  the readiness loop ends without a ready line and the run reports success.
\<close>

theorem dev_server_exit_code_ignored:
  "spawn (one_fails [''npm'', ''run'', ''dev'']) [''npm'', ''run'', ''dev''] = Child failing
   \<and> returncode failing = 1
   \<and> (DevServer, Spawn [''npm'', ''run'', ''dev''] (Some ''/tmp/app'') None)
       \<in> set (run dev_cfg (one_fails [''npm'', ''run'', ''dev'']))
   \<and> results (run dev_cfg (one_fails [''npm'', ''run'', ''dev'']))
       = [(True, ''Project created successfully!'')]"
proof -
  let ?w = "one_fails [''npm'', ''run'', ''dev'']"
  have t: "\<not> any_feature dev_cfg" "\<not> init_git dev_cfg" "\<not> build_project dev_cfg"
    "\<not> open_vscode dev_cfg" "start_dev dev_cfg"
    by (simp_all add: dev_cfg_def sample_cfg_def any_feature_def)
  have ok: "\<forall>c \<in> set (step_commands dev_cfg DepCheck @ step_commands dev_cfg Scaffold
                    @ step_commands dev_cfg Shadcn). exits_zero ?w c"
    by (simp add: exits_zero_def one_fails_def all_quiet_def quiet_def create_command_def)
  have oka: "takes_answers ?w [''npx'', ''shadcn@latest'', ''init''] (shadcn_responses dev_cfg)"
    by (simp add: takes_answers_def stdin_open_def one_fails_def all_quiet_def quiet_def)
  have dir: "path_join ?w (project_path dev_cfg) (project_name dev_cfg) = ''/tmp/app''"
    by (simp add: one_fails_def all_quiet_def dev_cfg_def sample_cfg_def)
  note d = dev_only_run [OF t(1) ok oka t(2,3,4,5), unfolded dir]
  have "snd (start_dev_server dev_cfg ?w ''/tmp/app'') = Inr ()"
    by (simp add: start_dev_server_def snd_bind log_message_def emit_def popen_def one_fails_def
          failing_def is_ready_line_def announce_ready_def ret_def)
  with d(2) have "results (run dev_cfg ?w) = [(True, ''Project created successfully!'')]"
    by (simp add: results_run)
  with d(1) show ?thesis
    by (simp add: one_fails_def failing_def)
qed

text \<open>The witness of the amended claim C2: the component-library init, the second
  command of step 4, exits with code 1; the message names its description.\<close>

theorem child_failure_aborts_witness:
  "(Shadcn, Spawn [''npx'', ''shadcn@latest'', ''init''] (Some ''/tmp/app'')
              (Some [(''NPM_CONFIG_LEGACY_PEER_DEPS'', ''true'')]))
     \<in> set (run sample_cfg (one_fails [''npx'', ''shadcn@latest'', ''init'']))
   \<and> spawn (one_fails [''npx'', ''shadcn@latest'', ''init'']) [''npx'', ''shadcn@latest'', ''init'']
       = Child failing
   \<and> ending failing = Ends \<and> comm_error failing = None \<and> returncode failing \<noteq> 0
   \<and> stdin_open failing 0 (shadcn_responses sample_cfg) (reads failing)
   \<and> results (run sample_cfg (one_fails [''npx'', ''shadcn@latest'', ''init'']))
       = [(False, ''Error: Initializing shadcn/ui failed: '' @ err_text failing)]
   \<and> last (commands (run sample_cfg (one_fails [''npx'', ''shadcn@latest'', ''init''])))
       = (Shadcn, [''npx'', ''shadcn@latest'', ''init''])"
proof -
  let ?c = "[''npx'', ''shadcn@latest'', ''init'']"
  let ?w = "one_fails ?c"
  have t: "\<not> any_feature sample_cfg"
    by (simp add: sample_cfg_def any_feature_def)
  have ok: "\<forall>c \<in> set (step_commands sample_cfg DepCheck @ step_commands sample_cfg Scaffold).
      exits_zero ?w c"
    by (simp add: exits_zero_def one_fails_def all_quiet_def quiet_def create_command_def)
  have oki: "exits_zero ?w ([''npm'', ''install'', ''--save-dev''] @ base_deps)"
    by (simp add: exits_zero_def one_fails_def all_quiet_def quiet_def)
  have dir: "path_join ?w (project_path sample_cfg) (project_name sample_cfg) = ''/tmp/app''"
    by (simp add: one_fails_def all_quiet_def sample_cfg_def)
  note r = shadcn_init_reached [OF t ok oki, unfolded dir]
  have s: "spawn ?w ?c = Child failing" "ending failing = Ends" "comm_error failing = None"
    "returncode failing \<noteq> 0"
    by (simp_all add: one_fails_def failing_def)
  have o: "stdin_open failing 0 (shadcn_responses sample_cfg) (reads failing)"
    by (simp add: stdin_open_def failing_def)
  have n: "Shadcn \<noteq> DevServer"
    by simp
  have o': "?c = [''npx'', ''shadcn@latest'', ''init'']
      \<longrightarrow> stdin_open failing 0 (shadcn_responses sample_cfg) (reads failing)"
    using o by simp
  have d': "Shadcn = DepCheck
      \<longrightarrow> (\<forall>c' \<in> set (step_commands sample_cfg DepCheck). \<not> stalls ?w c')"
    by simp
  from child_failure_aborts [OF r s(1) s(2) s(3) s(4) n o' d'] r s o show ?thesis
    by (simp add: failure_text_def)
qed

lemma start_dev_server_raises:
  assumes "spawn w [''npm'', ''run'', ''dev''] = Child p"
    and "reads p = pre @ line # post"
    and "\<forall>l \<in> set pre. \<not> is_ready_line l"
    and "is_ready_line line"
    and "parse_port w line = Inl e"
  shows "snd (start_dev_server cfg w dir) = Inl (Raised e)"
proof -
  have "snd (wait_ready w (ending p) (reads p)) = Inl (Raised e)"
    using wait_ready_skip [OF assms(3), of w "ending p" "line # post"]
      wait_ready_hit [OF assms(4), of w "ending p" post] assms(5)
    by (simp add: assms(2))
  then show ?thesis
    by (simp add: start_dev_server_def snd_bind log_message_def emit_def popen_def assms(1))
qed

section \<open>Dev Server Launcher: a ready line that does not parse\<close>

text \<open>
  Claim C9, as stated: the port is \<open>int\<close> of the stripped text after the first
  \<open>localhost:\<close>, and every ready line on which that text is not a decimal integer raises.
  It fails on a line with a second \<open>localhost:\<close>: \<open>split\<close> cuts the line at every
  occurrence, so the text that is parsed ends at the second one. Here the text after the
  first \<open>localhost:\<close> is not an integer, and yet port 3000 is parsed and reported and
  nothing is raised.
\<close>

theorem second_localhost_ends_port_text:
  "is_ready_line (''Local: localhost:3000 localhost:3000'' @ [CHR 0x0A])
   \<and> text_after_first ''localhost:'' (''Local: localhost:3000 localhost:3000'' @ [CHR 0x0A])
       = Some (''3000 localhost:3000'' @ [CHR 0x0A])
   \<and> py_int (py_strip (''3000 localhost:3000'' @ [CHR 0x0A])) = None
   \<and> start_dev_server (sample_cfg\<lparr>open_browser := False\<rparr>)
        (serving (''Local: localhost:3000 localhost:3000'' @ [CHR 0x0A])) ''/tmp/app''
       = ([Log ''Starting development server...'',
           Spawn [''npm'', ''run'', ''dev''] (Some ''/tmp/app'') None,
           Log ''starting'', Log ''Local: localhost:3000 localhost:3000'', Sleep 2,
           Log ''Development server is ready on port 3000!''],
          Inr ())"
  by (simp add: is_ready_line_def sample_cfg_def start_dev_server_def serving_def all_quiet_def
        quiet_def bind_def log_message_def emit_def popen_def parse_port_def py_split_def
        py_strip_def is_space_def in_range_def py_int_def is_int_space_def py_int_digits_def over_limit_def scan_run_def max_str_digits_def int_error_def int_body_def
        is_digit_def digit_val_def announce_ready_def ret_def str_int_def str_nat.simps
        digit_char_def)

text \<open>
  Claim C9, amended: when the dev server has been started and the first ready line read
  within the timeout either has no \<open>localhost:\<close>, or has between its first \<open>localhost:\<close>
  and the next one (or the end of the line) a text that \<open>int\<close> rejects once stripped,
  then the parse raises \<open>IndexError\<close> or \<open>ValueError\<close>, nothing in \<open>start_dev_server\<close>
  catches it, and the run ends with the single result \<open>Error:\<close> and the exception's text,
  a failure, instead of the soft outcome of the timeout.
\<close>

theorem ready_line_parse_failure:
  assumes "(DevServer, Spawn c cwd env) \<in> set (run cfg w)"
    and "spawn w [''npm'', ''run'', ''dev''] = Child p"
    and "reads p = pre @ line # post"
    and "\<forall>l \<in> set pre. \<not> is_ready_line l"
    and "is_ready_line line"
    and "\<not> py_in ''localhost:'' line
         \<or> (\<exists>a seg pieces. py_split line ''localhost:'' = a # seg # pieces
                \<and> py_int (py_strip seg) = None)"
  shows "\<exists>e. parse_port w line = Inl e
           \<and> ((\<exists>t. e = IndexError t) \<or> (\<exists>t. e = ValueError t))
           \<and> results (run cfg w) = [(False, ''Error: '' @ str_exn e)]
           \<and> last (run cfg w) = (Report, Finished False (''Error: '' @ str_exn e))"
proof -
  obtain e where pe: "parse_port w line = Inl e"
    and kind: "(\<exists>t. e = IndexError t) \<or> (\<exists>t. e = ValueError t)"
  proof (cases "py_in ''localhost:'' line")
    case False
    from parse_port_no_marker [OF this, of w] that show ?thesis by blast
  next
    case True
    with assms(6) obtain a seg pieces where
      "py_split line ''localhost:'' = a # seg # pieces" "py_int (py_strip seg) = None"
      by blast
    then have "parse_port w line = Inl (ValueError (int_error w (py_strip seg)))"
      by (simp add: parse_port_def)
    with that show ?thesis by blast
  qed
  note r = run_spawn_in_body [OF assms(1)]
  from exec_reach [OF r] obtain pre' a post' where
    d: "plan cfg w = pre' @ (DevServer, a) # post'" and ev: "Spawn c cwd env \<in> set (fst a)"
    and body: "fst (exec (plan cfg w)) =
         concat (map (\<lambda>x. map (Pair (fst x)) (fst (snd x))) pre') @ map (Pair DevServer) (fst a)
         @ (case snd a of Inl err \<Rightarrow> [] | Inr u \<Rightarrow> fst (exec post'))"
      "snd (exec (plan cfg w)) = (case snd a of Inl err \<Rightarrow> Inl err | Inr u \<Rightarrow> snd (exec post'))"
    by blast
  have mem: "(DevServer, a) \<in> set (plan cfg w)"
    unfolding d by simp
  then obtain dir where a: "a = dev_server_step cfg w dir"
    by (cases rule: plan_cases) simp_all
  have on: "start_dev cfg"
  proof (rule ccontr)
    assume "\<not> start_dev cfg"
    then have "fst a = []" by (simp add: a dev_server_step_def ret_def)
    with ev show False by simp
  qed
  have f: "snd a = Inl (Raised e)"
    using on start_dev_server_raises [OF assms(2,3,4,5) pe, of cfg dir]
    by (simp add: a dev_server_step_def snd_bind emit_def)
  note ab = run_aborted [OF d r f body]
  from pe kind ab(1,2) show ?thesis by blast
qed

theorem ready_line_parse_failure_witness:
  "(DevServer, Spawn [''npm'', ''run'', ''dev''] (Some ''/tmp/app'') None)
     \<in> set (run dev_cfg (serving (''- Local: http://localhost:3001/'' @ [CHR 0x0A])))
   \<and> is_ready_line (''- Local: http://localhost:3001/'' @ [CHR 0x0A])
   \<and> py_split (''- Local: http://localhost:3001/'' @ [CHR 0x0A]) ''localhost:''
       = [''- Local: http://'', ''3001/'' @ [CHR 0x0A]]
   \<and> py_int (py_strip (''3001/'' @ [CHR 0x0A])) = None
   \<and> results (run dev_cfg (serving (''- Local: http://localhost:3001/'' @ [CHR 0x0A])))
       = [(False, ''Error: invalid literal for int() with base 10: ''
                  @ CHR 0x27 # ''3001/'' @ [CHR 0x27])]"
proof -
  let ?line = "''- Local: http://localhost:3001/'' @ [CHR 0x0A]"
  let ?w = "serving ?line"
  let ?p = "quiet\<lparr>reads := [''starting'' @ [CHR 0x0A], [], ?line]\<rparr>"
  have t: "\<not> any_feature dev_cfg" "\<not> init_git dev_cfg" "\<not> build_project dev_cfg"
    "\<not> open_vscode dev_cfg" "start_dev dev_cfg"
    by (simp_all add: dev_cfg_def sample_cfg_def any_feature_def)
  have ok: "\<forall>c \<in> set (step_commands dev_cfg DepCheck @ step_commands dev_cfg Scaffold
                    @ step_commands dev_cfg Shadcn). exits_zero ?w c"
    by (simp add: exits_zero_def serving_def all_quiet_def quiet_def)
  have oka: "takes_answers ?w [''npx'', ''shadcn@latest'', ''init''] (shadcn_responses dev_cfg)"
    by (simp add: takes_answers_def stdin_open_def serving_def all_quiet_def quiet_def)
  have dir: "path_join ?w (project_path dev_cfg) (project_name dev_cfg) = ''/tmp/app''"
    by (simp add: serving_def all_quiet_def dev_cfg_def sample_cfg_def)
  note d = dev_only_run(1) [OF t(1) ok oka t(2,3,4,5), unfolded dir]
  have 1: "spawn ?w [''npm'', ''run'', ''dev''] = Child ?p"
    by (simp add: serving_def all_quiet_def)
  have 2: "reads ?p = [''starting'' @ [CHR 0x0A], []] @ ?line # []"
    by simp
  have 3: "\<forall>l \<in> set [''starting'' @ [CHR 0x0A], []]. \<not> is_ready_line l"
    by (simp add: is_ready_line_def)
  have 4: "is_ready_line ?line"
    by (simp add: is_ready_line_def)
  have 5: "py_split ?line ''localhost:'' = [''- Local: http://'', ''3001/'' @ [CHR 0x0A]]"
    by (simp add: py_split_def)
  have 6: "py_int (py_strip (''3001/'' @ [CHR 0x0A])) = None"
    by (simp add: py_strip_def is_space_def in_range_def py_int_def is_int_space_def
          py_int_digits_def over_limit_def scan_run_def max_str_digits_def int_error_def int_body_def is_digit_def digit_val_def)
  have h: "\<not> py_in ''localhost:'' ?line
         \<or> (\<exists>a seg pieces. py_split ?line ''localhost:'' = a # seg # pieces
                \<and> py_int (py_strip seg) = None)"
    using 5 6 by blast
  have pp: "parse_port ?w ?line =
      Inl (ValueError (''invalid literal for int() with base 10: '' @ CHR 0x27 # ''3001/'' @ [CHR 0x27]))"
    using 5 6
    by (simp add: parse_port_def serving_def all_quiet_def py_strip_def is_space_def in_range_def
          int_error_def int_body_def is_int_space_def over_limit_def scan_run_def
          max_str_digits_def is_digit_def)
  from ready_line_parse_failure [OF d 1 2 3 4 h] pp
  have "results (run dev_cfg ?w)
       = [(False, ''Error: invalid literal for int() with base 10: ''
                  @ CHR 0x27 # ''3001/'' @ [CHR 0x27])]"
    by auto
  with d 4 5 6 show ?thesis by blast
qed

lemma create_command_pm: "create_command (cfg\<lparr>package_manager := pm\<rparr>) = create_command cfg"
  by (simp add: create_command_def)

lemma scaffold_pm: "scaffold (cfg\<lparr>package_manager := pm\<rparr>) w dir = scaffold cfg w dir"
  by (simp add: scaffold_def create_command_pm)

lemma features_pm: "features_step (cfg\<lparr>package_manager := pm\<rparr>) dir = features_step cfg dir"
  by (simp add: features_step_def any_feature_def)

lemma responses_pm: "shadcn_responses (cfg\<lparr>package_manager := pm\<rparr>) = shadcn_responses cfg"
  by (simp add: shadcn_responses_def)

lemma shadcn_body_pm:
  "setup_shadcn_body (cfg\<lparr>package_manager := pm\<rparr>) w dir = setup_shadcn_body cfg w dir"
  by (simp add: setup_shadcn_body_def responses_pm)

lemma shadcn_pm: "shadcn_step (cfg\<lparr>package_manager := pm\<rparr>) w dir = shadcn_step cfg w dir"
  by (simp only: shadcn_step_def setup_shadcn_and_utilities_def shadcn_body_pm)

lemma git_pm: "git_step (cfg\<lparr>package_manager := pm\<rparr>) w dir = git_step cfg w dir"
  by (simp add: git_step_def)

lemma build_pm: "build_step (cfg\<lparr>package_manager := pm\<rparr>) w dir = build_step cfg w dir"
  by (simp add: build_step_def)

lemma editor_pm: "editor_step (cfg\<lparr>package_manager := pm\<rparr>) w dir = editor_step cfg w dir"
  by (simp add: editor_step_def)

lemma announce_pm: "announce_ready (cfg\<lparr>package_manager := pm\<rparr>) r = announce_ready cfg r"
  by (simp add: announce_ready_def split: option.splits)

lemma dev_server_pm:
  "dev_server_step (cfg\<lparr>package_manager := pm\<rparr>) w dir = dev_server_step cfg w dir"
  by (simp add: dev_server_step_def start_dev_server_def announce_pm)

lemma plan_package_manager: "plan (cfg\<lparr>package_manager := pm\<rparr>) w = plan cfg w"
  by (simp add: plan_def scaffold_pm features_pm shadcn_pm git_pm build_pm editor_pm dev_server_pm)

lemma run_package_manager: "run (cfg\<lparr>package_manager := pm\<rparr>) w = run cfg w"
proof -
  have "run_body (cfg\<lparr>package_manager := pm\<rparr>) w = run_body cfg w"
    by (simp only: run_body_exec plan_package_manager)
  then show ?thesis
    by (simp only: run_def)
qed

lemma step_commands_program:
  "c \<in> set (step_commands cfg s) \<Longrightarrow>
   c \<noteq> [] \<and> hd c \<in> set [''node'', ''npm'', ''npx'', ''git'', ''code'']"
  by (cases s) (auto simp: create_command_def)

section \<open>Sequencer: the package manager\<close>

text \<open>
  Claim C10, as stated: the scaffold argument vector always ends with \<open>--use-npm\<close>, and
  the package-manager choice influences no command. The first part fails when a custom
  import alias is set, as it is by default: \<open>--import-alias\<close> and the alias are appended
  after \<open>--use-npm\<close>.
\<close>

theorem scaffold_args_end_with_alias:
  "custom_import_alias sample_cfg
   \<and> last (create_command sample_cfg) = ''@/*''
   \<and> last (create_command sample_cfg) \<noteq> ''--use-npm''"
  by (simp add: sample_cfg_def create_command_def)

text \<open>
  Claim C10, amended: two configurations that differ only in \<open>package_manager\<close> give the
  same run, event for event, in every world. The scaffold argument vector always has
  \<open>--use-npm\<close> as its eleventh element, which is its last one when no custom import
  alias is set; and every command a run starts is a call of \<open>node\<close>, \<open>npm\<close>, \<open>npx\<close>,
  \<open>git\<close> or \<open>code\<close>, never of another package manager.
\<close>

theorem package_manager_ignored:
  "run (cfg\<lparr>package_manager := pm\<rparr>) w = run cfg w
   \<and> create_command cfg ! 10 = ''--use-npm''
   \<and> (\<not> custom_import_alias cfg \<longrightarrow> last (create_command cfg) = ''--use-npm'')
   \<and> (\<forall>(s, c) \<in> set (commands (run cfg w)).
         c \<noteq> [] \<and> hd c \<in> set [''node'', ''npm'', ''npx'', ''git'', ''code''])"
proof -
  have "\<forall>(s, c) \<in> set (commands (run cfg w)).
         c \<noteq> [] \<and> hd c \<in> set [''node'', ''npm'', ''npx'', ''git'', ''code'']"
    using body_commands [of _ _ cfg w] step_commands_program [of _ cfg]
    unfolding commands_run by blast
  moreover have "create_command cfg ! 10 = ''--use-npm''"
    by (simp add: create_command_def)
  moreover have "\<not> custom_import_alias cfg \<longrightarrow> last (create_command cfg) = ''--use-npm''"
    by (simp add: create_command_def)
  ultimately show ?thesis
    using run_package_manager [where cfg = cfg and pm = pm and w = w] by blast
qed

theorem package_manager_ignored_witness:
  "run (sample_cfg\<lparr>package_manager := ''yarn''\<rparr>) all_quiet = run sample_cfg all_quiet
   \<and> create_command sample_cfg ! 10 = ''--use-npm''
   \<and> \<not> custom_import_alias (sample_cfg\<lparr>custom_import_alias := False\<rparr>)
   \<and> last (create_command (sample_cfg\<lparr>custom_import_alias := False\<rparr>)) = ''--use-npm''
   \<and> (Scaffold, create_command sample_cfg) \<in> set (commands (run sample_cfg all_quiet))
   \<and> hd (create_command sample_cfg) = ''npx''"
proof -
  have m: "(Scaffold, create_command sample_cfg) \<in> set (commands (run sample_cfg all_quiet))"
    using sample_run by (simp add: create_command_def sample_cfg_def)
  from package_manager_ignored [where cfg = sample_cfg and pm = "''yarn''" and w = all_quiet]
    package_manager_ignored [where cfg = "sample_cfg\<lparr>custom_import_alias := False\<rparr>"
      and pm = "''yarn''" and w = all_quiet] m
  show ?thesis
    by (auto simp: create_command_def)
qed

end
